theory Spec2Isabelle
  imports Main "HOL-Library.Product_Lexorder"
begin

section \<open>Data model (the Prisma schema)\<close>

text \<open>
  Ids are the schema's \<open>Int\<close>; a \<open>DateTime\<close> is the number of milliseconds since
  the epoch, so \<open>new Date(0)\<close> is \<open>0\<close>. The columns \<open>type\<close>, \<open>status\<close> and
  \<open>callStatus\<close> are \<open>String\<close> in the schema and stay strings here. Of \<open>User\<close> only
  the columns that the chat handlers select are kept.
\<close>

type_synonym time = int

record user =
  u_id :: int
  username :: string
  avatar :: "string option"
  u_status :: string

record conversation =
  c_id :: int
  c_type :: string
  groupId :: "int option"
  lastMessageAt :: "time option"
  c_createdAt :: time
  c_updatedAt :: time

record participant =
  p_id :: int
  p_conversationId :: int
  p_userId :: int
  lastReadAt :: time
  isArchived :: bool
  isMuted :: bool
  joinedAt :: time

record message =
  m_id :: int
  conversationId :: int
  senderId :: int
  receiverId :: "int option"
  content :: "string option"
  m_type :: string
  mediaUrl :: "string option"
  replyToId :: "int option"
  status :: string
  callStatus :: "string option"
  callStartedAt :: "time option"
  callEndedAt :: "time option"
  callDuration :: "int option"
  createdAt :: time
  updatedAt :: time
  deletedAt :: "time option"

subsection \<open>Response and event payloads\<close>

record sender_info =
  si_id :: int
  si_username :: string
  si_avatar :: "string option"

record reply_info =
  ri_id :: int
  ri_content :: "string option"
  ri_senderId :: int
  ri_senderName :: string

record formatted_message =
  fm_id :: int
  fm_conversationId :: int
  fm_senderId :: int
  fm_content :: "string option"
  fm_type :: string
  fm_mediaUrl :: "string option"
  fm_status :: string
  fm_createdAt :: time
  fm_updatedAt :: time
  fm_sender :: sender_info
  fm_replyTo :: "reply_info option"
  fm_callStatus :: "string option"
  fm_callDuration :: "int option"

record last_message =
  lm_id :: int
  lm_content :: "string option"
  lm_type :: string
  lm_createdAt :: time
  lm_senderId :: int
  lm_senderName :: string

text \<open>The \<open>group\<close> annotation of a formatted conversation is left out: no group table is modelled.\<close>

record formatted_conversation =
  fc_id :: int
  fc_type :: string
  fc_lastMessageAt :: "time option"
  fc_unreadCount :: nat
  fc_isArchived :: bool
  fc_isMuted :: bool
  fc_createdAt :: time
  fc_updatedAt :: time
  fc_participants :: "user list"
  fc_lastMessage :: "last_message option"

record conversation_page =
  cp_conversations :: "formatted_conversation list"
  cp_total :: nat
  cp_page :: nat
  cp_limit :: nat
  cp_hasMore :: bool

record message_page =
  mp_messages :: "formatted_message list"
  mp_total :: nat
  mp_page :: nat
  mp_limit :: nat
  mp_hasMore :: bool

text \<open>
  The frames pushed to live connections, one constructor per \<open>type\<close> tag used by the
  handlers below: \<open>new_message\<close>, \<open>message_read\<close> (messageId, conversationId, readBy,
  readAt), \<open>message_deleted\<close> (messageId, conversationId, deletedAt) and
  \<open>incoming_call\<close> (the formatted call message and \<open>callType\<close>).
\<close>

datatype event =
    NewMessage formatted_message
  | MessageRead int int int time
  | MessageDeleted int int time
  | IncomingCall formatted_message string

text \<open>The error envelopes of \<open>utils/response\<close>: 401, 400, 403, 404 and 500.\<close>

datatype error = Unauthenticated | InvalidArgument | Forbidden | NotFound | Internal

section \<open>State: the database, the connection registry and the trace of effects\<close>

text \<open>
  A \<open>WebSocket\<close> is known by its identity and its \<open>readyState\<close>
  (\<open>WebSocket.OPEN\<close> is \<open>1\<close>). The registry \<open>connections\<close> is the module's
  \<^verbatim>\<open>Map<number, Set<WebSocket>>\<close>; a set iterates in insertion order, so it is a list.
\<close>

record websocket =
  ws_id :: nat
  readyState :: nat

definition WebSocket_OPEN :: nat where
  "WebSocket_OPEN = 1"

text \<open>
  Every write to the database and every \<open>ws.send\<close> is appended to \<open>trace\<close> in the
  order in which the handler performs it.
\<close>

datatype effect =
    MessageCreate int
  | MessageUpdate int
  | MessageUpdateMany "int list"
  | ConversationCreate int
  | ConversationUpdate int
  | ParticipantUpdate int int
  | WsSend nat event

record state =
  users :: "user list"
  conversations :: "conversation list"
  participants :: "participant list"
  messages :: "message list"
  connections :: "int \<rightharpoonup> websocket list"
  trace :: "effect list"

definition emit :: "effect \<Rightarrow> state \<Rightarrow> state" where
  "emit e s = s\<lparr>trace := trace s @ [e]\<rparr>"

section \<open>The connection registry and the dispatcher (plugins/websocket.ts)\<close>

definition ws_send :: "event \<Rightarrow> websocket \<Rightarrow> state \<Rightarrow> state" where
  "ws_send messageStr ws s =
     (if readyState ws = WebSocket_OPEN then emit (WsSend (ws_id ws) messageStr) s else s)"

definition broadcastToUser :: "int \<Rightarrow> event \<Rightarrow> state \<Rightarrow> state" where
  "broadcastToUser userId msg s =
     (case connections s userId of
        None \<Rightarrow> s
      | Some userConnections \<Rightarrow> fold (ws_send msg) userConnections s)"

definition broadcastToUsers :: "int list \<Rightarrow> event \<Rightarrow> state \<Rightarrow> state" where
  "broadcastToUsers userIds msg s =
     fold (\<lambda>userId s'.
        case connections s' userId of
          None \<Rightarrow> s'
        | Some userConnections \<Rightarrow> fold (ws_send msg) userConnections s') userIds s"

definition addConnection :: "int \<Rightarrow> websocket \<Rightarrow> state \<Rightarrow> state" where
  "addConnection userId ws s =
     (let conns = (case connections s userId of None \<Rightarrow> [] | Some c \<Rightarrow> c)
      in s\<lparr>connections := (connections s)(userId \<mapsto> (if ws \<in> set conns then conns else conns @ [ws]))\<rparr>)"

definition removeConnection :: "int \<Rightarrow> websocket \<Rightarrow> state \<Rightarrow> state" where
  "removeConnection userId ws s =
     (case connections s userId of
        None \<Rightarrow> s
      | Some userConnections \<Rightarrow>
          (let rest = removeAll ws userConnections
           in if rest = [] then s\<lparr>connections := (connections s)(userId := None)\<rparr>
              else s\<lparr>connections := (connections s)(userId \<mapsto> rest)\<rparr>))"

text \<open>The frames that a dispatch to \<open>userIds\<close> puts on the wire, in order.\<close>

definition live_sockets :: "state \<Rightarrow> int \<Rightarrow> websocket list" where
  "live_sockets s userId =
     (case connections s userId of
        None \<Rightarrow> []
      | Some cs \<Rightarrow> filter (\<lambda>ws. readyState ws = WebSocket_OPEN) cs)"

definition frames :: "state \<Rightarrow> int list \<Rightarrow> event \<Rightarrow> effect list" where
  "frames s userIds msg =
     concat (map (\<lambda>userId. map (\<lambda>ws. WsSend (ws_id ws) msg) (live_sockets s userId)) userIds)"

section \<open>The persistence service (Prisma over the schema)\<close>

text \<open>
  A table is the list of its rows in insertion order. An \<open>@id @default(autoincrement())\<close>
  column takes the successor of the largest id in the table (no handler deletes rows), so
  the first id is \<open>1\<close>.
\<close>

definition autoincrement :: "int list \<Rightarrow> int" where
  "autoincrement ids = fold max ids 0 + 1"

definition user_findUnique :: "state \<Rightarrow> int \<Rightarrow> user option" where
  "user_findUnique s i = find (\<lambda>u. u_id u = i) (users s)"

definition conversation_findUnique :: "state \<Rightarrow> int \<Rightarrow> conversation option" where
  "conversation_findUnique s i = find (\<lambda>c. c_id c = i) (conversations s)"

definition message_findUnique :: "state \<Rightarrow> int \<Rightarrow> message option" where
  "message_findUnique s i = find (\<lambda>m. m_id m = i) (messages s)"

definition participant_findUnique :: "state \<Rightarrow> int \<Rightarrow> int \<Rightarrow> participant option" where
  "participant_findUnique s cid uid =
     find (\<lambda>p. p_conversationId p = cid \<and> p_userId p = uid) (participants s)"

text \<open>The relation \<open>conversation.participants\<close> (\<open>include: { participants: true }\<close>).\<close>

definition conversation_participants :: "state \<Rightarrow> int \<Rightarrow> participant list" where
  "conversation_participants s cid = filter (\<lambda>p. p_conversationId p = cid) (participants s)"

text \<open>
  A row of \<open>Message\<close> with the schema's defaults (\<open>type\<close> is \<open>text\<close>, \<open>status\<close> is
  \<open>sent\<close>, every optional column null); \<open>create\<close> fills in the id and the timestamps.
\<close>

definition message_defaults :: message where
  "message_defaults =
     \<lparr>m_id = 0, conversationId = 0, senderId = 0, receiverId = None, content = None,
      m_type = ''text'', mediaUrl = None, replyToId = None, status = ''sent'',
      callStatus = None, callStartedAt = None, callEndedAt = None, callDuration = None,
      createdAt = 0, updatedAt = 0, deletedAt = None\<rparr>"

text \<open>
  The joins of \<open>include\<close>. A required relation whose target row is missing makes Prisma
  throw (\<open>None\<close> here); the optional relation \<open>replyTo\<close> is null when the id is null or
  dangling.
\<close>

definition sender_include :: "state \<Rightarrow> message \<Rightarrow> sender_info option" where
  "sender_include s m =
     map_option (\<lambda>u. \<lparr>si_id = u_id u, si_username = username u, si_avatar = avatar u\<rparr>)
       (user_findUnique s (senderId m))"

definition replyTo_include :: "state \<Rightarrow> message \<Rightarrow> reply_info option option" where
  "replyTo_include s m =
     (case replyToId m of
        None \<Rightarrow> Some None
      | Some r \<Rightarrow>
          (case message_findUnique s r of
             None \<Rightarrow> Some None
           | Some rm \<Rightarrow>
               (case user_findUnique s (senderId rm) of
                  None \<Rightarrow> None
                | Some ru \<Rightarrow>
                    Some (Some \<lparr>ri_id = m_id rm, ri_content = content rm,
                                ri_senderId = senderId rm, ri_senderName = username ru\<rparr>))))"

text \<open>
  \<open>prisma.message.create\<close>: the foreign keys of the schema (\<open>conversation\<close>, \<open>sender\<close>,
  \<open>receiver\<close>, \<open>replyTo\<close>) are enforced, and a violation throws without inserting.
\<close>

definition message_create :: "state \<Rightarrow> message \<Rightarrow> time \<Rightarrow> (state \<times> message) option" where
  "message_create s data now =
     (if conversation_findUnique s (conversationId data) = None
         \<or> user_findUnique s (senderId data) = None
         \<or> (case receiverId data of None \<Rightarrow> False | Some r \<Rightarrow> user_findUnique s r = None)
         \<or> (case replyToId data of None \<Rightarrow> False | Some r \<Rightarrow> message_findUnique s r = None)
      then None
      else
        (let m = data\<lparr>m_id := autoincrement (map m_id (messages s)), createdAt := now, updatedAt := now\<rparr>
         in Some (emit (MessageCreate (m_id m)) (s\<lparr>messages := messages s @ [m]\<rparr>), m)))"

text \<open>\<open>update\<close> throws when the row does not exist; \<open>@updatedAt\<close> columns are refreshed.\<close>

definition message_update :: "state \<Rightarrow> int \<Rightarrow> (message \<Rightarrow> message) \<Rightarrow> time \<Rightarrow> state option" where
  "message_update s i f now =
     (case message_findUnique s i of
        None \<Rightarrow> None
      | Some _ \<Rightarrow>
          Some (emit (MessageUpdate i)
            (s\<lparr>messages := map (\<lambda>m. if m_id m = i then (f m)\<lparr>updatedAt := now\<rparr> else m) (messages s)\<rparr>)))"

definition message_updateMany :: "state \<Rightarrow> (message \<Rightarrow> bool) \<Rightarrow> (message \<Rightarrow> message) \<Rightarrow> time \<Rightarrow> state" where
  "message_updateMany s wh f now =
     emit (MessageUpdateMany (map m_id (filter wh (messages s))))
       (s\<lparr>messages := map (\<lambda>m. if wh m then (f m)\<lparr>updatedAt := now\<rparr> else m) (messages s)\<rparr>)"

definition conversation_update :: "state \<Rightarrow> int \<Rightarrow> (conversation \<Rightarrow> conversation) \<Rightarrow> time \<Rightarrow> state option" where
  "conversation_update s i f now =
     (case conversation_findUnique s i of
        None \<Rightarrow> None
      | Some _ \<Rightarrow>
          Some (emit (ConversationUpdate i)
            (s\<lparr>conversations := map (\<lambda>c. if c_id c = i then (f c)\<lparr>c_updatedAt := now\<rparr> else c) (conversations s)\<rparr>)))"

definition participant_update :: "state \<Rightarrow> int \<Rightarrow> int \<Rightarrow> (participant \<Rightarrow> participant) \<Rightarrow> state option" where
  "participant_update s cid uid f =
     (case participant_findUnique s cid uid of
        None \<Rightarrow> None
      | Some _ \<Rightarrow>
          Some (emit (ParticipantUpdate cid uid)
            (s\<lparr>participants :=
                 map (\<lambda>p. if p_conversationId p = cid \<and> p_userId p = uid then f p else p) (participants s)\<rparr>)))"

text \<open>
  \<open>prisma.conversation.create\<close> with nested participant rows, in one transaction: a
  participant whose user does not exist, or a repeated (conversationId, userId) pair,
  throws and nothing is inserted.
\<close>

definition conversation_create :: "state \<Rightarrow> string \<Rightarrow> int list \<Rightarrow> time \<Rightarrow> (state \<times> conversation) option" where
  "conversation_create s ty userIds now =
     (if list_ex (\<lambda>u. user_findUnique s u = None) userIds \<or> \<not> distinct userIds then None
      else
        (let cid = autoincrement (map c_id (conversations s));
             c = \<lparr>c_id = cid, c_type = ty, groupId = None, lastMessageAt = None,
                  c_createdAt = now, c_updatedAt = now\<rparr>;
             pid = autoincrement (map p_id (participants s));
             ps = map (\<lambda>(i, u). \<lparr>p_id = pid + int i, p_conversationId = cid, p_userId = u,
                                  lastReadAt = now, isArchived = False, isMuted = False,
                                  joinedAt = now\<rparr>) (enumerate 0 userIds)
         in Some (emit (ConversationCreate cid)
                    (s\<lparr>conversations := conversations s @ [c], participants := participants s @ ps\<rparr>), c)))"

text \<open>\<open>orderBy: { createdAt: "desc" }\<close> and \<open>orderBy: { lastMessageAt: "desc" }\<close> (nulls last).\<close>

definition newest_first :: "message list \<Rightarrow> message list" where
  "newest_first ms = sort_key (\<lambda>m. - createdAt m) ms"

definition lastMessageAt_desc :: "conversation \<Rightarrow> int \<times> int" where
  "lastMessageAt_desc c = (case lastMessageAt c of None \<Rightarrow> (1, 0) | Some t \<Rightarrow> (0, - t))"

text \<open>The unread count query of \<open>getConversations\<close> and \<open>getConversation\<close>.\<close>

definition message_count_unread :: "state \<Rightarrow> int \<Rightarrow> time \<Rightarrow> int \<Rightarrow> nat" where
  "message_count_unread s cid t uid =
     length (filter (\<lambda>m. conversationId m = cid \<and> createdAt m > t \<and> senderId m \<noteq> uid) (messages s))"

section \<open>The handlers (routes/chat)\<close>

text \<open>
  A handler takes the state, \<open>request.user?.id\<close>, the validated request fields and the
  reading of the clock (\<open>new Date()\<close> and the database's \<open>now()\<close>; one reading stands for
  all the readings of one call). It returns the state it leaves behind and the reply.
  An exception inside \<open>try\<close> is the reply \<open>Internal\<close>, and the writes made before it stay.
\<close>

definition with_user :: "int option \<Rightarrow> state \<Rightarrow> (int \<Rightarrow> state \<times> (error + 'a)) \<Rightarrow> state \<times> (error + 'a)" where
  "with_user userId s k =
     (case userId of
        None \<Rightarrow> (s, Inl Unauthenticated)
      | Some u \<Rightarrow> if u = 0 then (s, Inl Unauthenticated) else k u)"

text \<open>JavaScript's truthiness of an optional number: \<open>undefined\<close> and \<open>0\<close> are falsy.\<close>

definition truthy :: "int option \<Rightarrow> bool" where
  "truthy x = (case x of None \<Rightarrow> False | Some n \<Rightarrow> n \<noteq> 0)"

text \<open>
  An \<open>Int\<close> argument of a query must fit a signed 64-bit integer: Prisma throws on any
  other number before it reaches the database. \<open>z.number()\<close> and a string of digits of
  any length let such numbers through. The ids of rows that exist are always within the
  range; \<open>readMessages\<close> and \<open>deleteMessage\<close>, whose replies to ids that name no row
  are stated below, carry the check.
\<close>

definition valid_Int :: "int \<Rightarrow> bool" where
  "valid_Int i = (- (2 ^ 63) \<le> i \<and> i < 2 ^ 63)"

definition format_message :: "message \<Rightarrow> sender_info \<Rightarrow> reply_info option \<Rightarrow> formatted_message" where
  "format_message m sender rt =
     \<lparr>fm_id = m_id m, fm_conversationId = conversationId m, fm_senderId = senderId m,
      fm_content = content m, fm_type = m_type m, fm_mediaUrl = mediaUrl m,
      fm_status = status m, fm_createdAt = createdAt m, fm_updatedAt = updatedAt m,
      fm_sender = sender, fm_replyTo = rt, fm_callStatus = callStatus m,
      fm_callDuration = callDuration m\<rparr>"

definition message_include :: "state \<Rightarrow> message \<Rightarrow> formatted_message option" where
  "message_include s m =
     (case sender_include s m of
        None \<Rightarrow> None
      | Some sender \<Rightarrow>
          (case replyTo_include s m of
             None \<Rightarrow> None
           | Some rt \<Rightarrow> Some (format_message m sender rt)))"

definition otherParticipantIds :: "state \<Rightarrow> int \<Rightarrow> int \<Rightarrow> int list" where
  "otherParticipantIds s cid userId =
     map p_userId (filter (\<lambda>p. p_userId p \<noteq> userId) (conversation_participants s cid))"

subsection \<open>getConversations\<close>

definition participants_include :: "state \<Rightarrow> participant list \<Rightarrow> (participant \<times> user) list option" where
  "participants_include s ps =
     those (map (\<lambda>p. map_option (Pair p) (user_findUnique s (p_userId p))) ps)"

definition lastMessage_include :: "state \<Rightarrow> int \<Rightarrow> last_message option option" where
  "lastMessage_include s cid =
     (case take 1 (newest_first (filter (\<lambda>m. conversationId m = cid) (messages s))) of
        [] \<Rightarrow> Some None
      | m # _ \<Rightarrow>
          (case user_findUnique s (senderId m) of
             None \<Rightarrow> None
           | Some sender \<Rightarrow>
               Some (Some \<lparr>lm_id = m_id m, lm_content = content m, lm_type = m_type m,
                           lm_createdAt = createdAt m, lm_senderId = senderId m,
                           lm_senderName = username sender\<rparr>)))"

definition format_conversation :: "state \<Rightarrow> int \<Rightarrow> participant list \<Rightarrow> conversation \<Rightarrow> formatted_conversation option" where
  "format_conversation s userId userConversationParticipants c =
     (case participants_include s (conversation_participants s (c_id c)) of
        None \<Rightarrow> None
      | Some ps \<Rightarrow>
          (case lastMessage_include s (c_id c) of
             None \<Rightarrow> None
           | Some lastMessage \<Rightarrow>
               (let participant = find (\<lambda>p. p_conversationId p = c_id c) userConversationParticipants;
                    unreadCount = message_count_unread s (c_id c)
                                    (case participant of None \<Rightarrow> 0 | Some p \<Rightarrow> lastReadAt p) userId;
                    otherParticipants = map snd (filter (\<lambda>(p, u). p_userId p \<noteq> userId) ps)
                in Some \<lparr>fc_id = c_id c, fc_type = c_type c, fc_lastMessageAt = lastMessageAt c,
                         fc_unreadCount = unreadCount,
                         fc_isArchived = (case participant of None \<Rightarrow> False | Some p \<Rightarrow> isArchived p),
                         fc_isMuted = (case participant of None \<Rightarrow> False | Some p \<Rightarrow> isMuted p),
                         fc_createdAt = c_createdAt c, fc_updatedAt = c_updatedAt c,
                         fc_participants = otherParticipants, fc_lastMessage = lastMessage\<rparr>)))"

text \<open>
  \<open>pageNum\<close> and \<open>limitNum\<close> are \<open>parseInt\<close> of strings of digits. Page \<open>0\<close> with a
  positive limit gives a negative \<open>skip\<close>, which \<open>findMany\<close> rejects by throwing.
\<close>

definition getConversations :: "state \<Rightarrow> int option \<Rightarrow> nat \<Rightarrow> nat \<Rightarrow> state \<times> (error + conversation_page)" where
  "getConversations s userId pageNum limitNum =
     with_user userId s (\<lambda>u.
       let skip = (int pageNum - 1) * int limitNum
       in if skip < 0 then (s, Inl Internal)
          else
            (let found = take limitNum (drop (nat skip) (sort_key lastMessageAt_desc
                           (filter (\<lambda>c. list_ex (\<lambda>p. p_userId p = u) (conversation_participants s (c_id c)))
                              (conversations s))));
                 total = length (filter (\<lambda>p. p_userId p = u) (participants s));
                 userConversationParticipants =
                   filter (\<lambda>p. p_userId p = u \<and> p_conversationId p \<in> set (map c_id found)) (participants s)
             in case those (map (format_conversation s u userConversationParticipants) found) of
                  None \<Rightarrow> (s, Inl Internal)
                | Some formattedConversations \<Rightarrow>
                    (s, Inr \<lparr>cp_conversations = formattedConversations, cp_total = total,
                             cp_page = pageNum, cp_limit = limitNum,
                             cp_hasMore = (skip + int (length found) < int total)\<rparr>)))"

subsection \<open>createDirectConversation\<close>

definition is_direct_between :: "state \<Rightarrow> int \<Rightarrow> int \<Rightarrow> conversation \<Rightarrow> bool" where
  "is_direct_between s userId targetUserId c =
     (c_type c = ''direct''
      \<and> list_all (\<lambda>p. p_userId p \<in> set [userId, targetUserId]) (conversation_participants s (c_id c))
      \<and> list_ex (\<lambda>p. p_userId p = userId) (conversation_participants s (c_id c))
      \<and> list_ex (\<lambda>p. p_userId p = targetUserId) (conversation_participants s (c_id c)))"

definition createDirectConversation :: "state \<Rightarrow> int option \<Rightarrow> int \<Rightarrow> time \<Rightarrow> state \<times> (error + formatted_conversation)" where
  "createDirectConversation s userId targetUserId now =
     with_user userId s (\<lambda>u.
       if u = targetUserId then (s, Inl InvalidArgument)
       else
         (case user_findUnique s targetUserId of
            None \<Rightarrow> (s, Inl NotFound)
          | Some targetUser \<Rightarrow>
              (case find (is_direct_between s u targetUserId) (conversations s) of
                 Some existingConversation \<Rightarrow>
                   (case participants_include s (conversation_participants s (c_id existingConversation)) of
                      None \<Rightarrow> (s, Inl Internal)
                    | Some ps \<Rightarrow>
                        (case lastMessage_include s (c_id existingConversation) of
                           None \<Rightarrow> (s, Inl Internal)
                         | Some lastMessage \<Rightarrow>
                             (let otherParticipants = map snd (filter (\<lambda>(p, usr). p_userId p \<noteq> u) ps);
                                  participant = participant_findUnique s (c_id existingConversation) u
                              in (s, Inr \<lparr>fc_id = c_id existingConversation,
                                          fc_type = c_type existingConversation,
                                          fc_lastMessageAt = lastMessageAt existingConversation,
                                          fc_unreadCount = 0,
                                          fc_isArchived = (case participant of None \<Rightarrow> False | Some p \<Rightarrow> isArchived p),
                                          fc_isMuted = (case participant of None \<Rightarrow> False | Some p \<Rightarrow> isMuted p),
                                          fc_createdAt = c_createdAt existingConversation,
                                          fc_updatedAt = c_updatedAt existingConversation,
                                          fc_participants = otherParticipants,
                                          fc_lastMessage = lastMessage\<rparr>))))
               | None \<Rightarrow>
                   (case conversation_create s ''direct'' [u, targetUserId] now of
                      None \<Rightarrow> (s, Inl Internal)
                    | Some (s1, newConversation) \<Rightarrow>
                        (s1, Inr \<lparr>fc_id = c_id newConversation, fc_type = c_type newConversation,
                                  fc_lastMessageAt = lastMessageAt newConversation,
                                  fc_unreadCount = 0, fc_isArchived = False, fc_isMuted = False,
                                  fc_createdAt = c_createdAt newConversation,
                                  fc_updatedAt = c_updatedAt newConversation,
                                  fc_participants = [targetUser], fc_lastMessage = None\<rparr>)))))"

subsection \<open>getMessages\<close>

text \<open>
  \<open>conversationIdNum\<close>, \<open>pageNum\<close>, \<open>limitNum\<close> and \<open>before\<close> are \<open>parseInt\<close> of
  strings of digits; \<open>before\<close> (here \<open>beforeId\<close>) is optional.
\<close>

definition getMessages :: "state \<Rightarrow> int option \<Rightarrow> nat \<Rightarrow> nat \<Rightarrow> nat \<Rightarrow> nat option \<Rightarrow> time \<Rightarrow> state \<times> (error + message_page)" where
  "getMessages s userId conversationIdNum pageNum limitNum beforeId now =
     with_user userId s (\<lambda>u.
       let skip = (int pageNum - 1) * int limitNum
       in case participant_findUnique s (int conversationIdNum) u of
            None \<Rightarrow> (s, Inl NotFound)
          | Some participant \<Rightarrow>
              (let beforeCreatedAt =
                     (case beforeId of
                        None \<Rightarrow> None
                      | Some b \<Rightarrow> map_option createdAt (message_findUnique s (int b)));
                   whereCondition = (\<lambda>m. conversationId m = int conversationIdNum \<and> deletedAt m = None
                                          \<and> (case beforeCreatedAt of None \<Rightarrow> True | Some t \<Rightarrow> createdAt m < t))
               in if skip < 0 then (s, Inl Internal)
                  else
                    (case those (map (message_include s)
                            (take limitNum (drop (nat skip) (newest_first (filter whereCondition (messages s)))))) of
                       None \<Rightarrow> (s, Inl Internal)
                     | Some formattedMessages \<Rightarrow>
                         (let total = length (filter whereCondition (messages s))
                          in case participant_update s (int conversationIdNum) u (\<lambda>p. p\<lparr>lastReadAt := now\<rparr>) of
                               None \<Rightarrow> (s, Inl Internal)
                             | Some s1 \<Rightarrow>
                                 (s1, Inr \<lparr>mp_messages = formattedMessages, mp_total = total,
                                           mp_page = pageNum, mp_limit = limitNum,
                                           mp_hasMore = (skip + int (length formattedMessages) < int total)\<rparr>)))))"

subsection \<open>sendMessage\<close>

text \<open>
  \<open>create\<close> with \<open>include\<close> is one call to Prisma: when a join of the included
  relations throws, the row is not inserted.
\<close>

definition sendMessage :: "state \<Rightarrow> int option \<Rightarrow> int \<Rightarrow> string \<Rightarrow> string \<Rightarrow> string option \<Rightarrow> int option \<Rightarrow> time \<Rightarrow> state \<times> (error + formatted_message)" where
  "sendMessage s userId cid content' type' mediaUrl' replyToId' now =
     with_user userId s (\<lambda>u.
       case conversation_findUnique s cid of
         None \<Rightarrow> (s, Inl NotFound)
       | Some conversation \<Rightarrow>
           if \<not> list_ex (\<lambda>p. p_userId p = u) (conversation_participants s cid) then (s, Inl Forbidden)
           else if truthy replyToId'
                   \<and> (case message_findUnique s (the replyToId') of
                         None \<Rightarrow> True
                       | Some replyToMessage \<Rightarrow> conversationId replyToMessage \<noteq> cid)
           then (s, Inl InvalidArgument)
           else
             (case message_create s
                     (message_defaults\<lparr>conversationId := cid, senderId := u, content := Some content',
                        m_type := type', mediaUrl := mediaUrl', replyToId := replyToId',
                        status := ''sent''\<rparr>) now of
                None \<Rightarrow> (s, Inl Internal)
              | Some (s1, message) \<Rightarrow>
                  (case message_include s1 message of
                     None \<Rightarrow> (s, Inl Internal)
                   | Some formattedMessage \<Rightarrow>
                       (case conversation_update s1 cid (\<lambda>c. c\<lparr>lastMessageAt := Some (createdAt message)\<rparr>) now of
                          None \<Rightarrow> (s1, Inl Internal)
                        | Some s2 \<Rightarrow>
                            (case participant_update s2 cid u (\<lambda>p. p\<lparr>lastReadAt := now\<rparr>) of
                               None \<Rightarrow> (s2, Inl Internal)
                             | Some s3 \<Rightarrow>
                                 (broadcastToUsers (otherParticipantIds s cid u)
                                    (NewMessage formattedMessage) s3,
                                  Inr formattedMessage))))))"

subsection \<open>readMessages\<close>

text \<open>
  \<open>conversation.findUnique\<close> throws on a \<open>conversationId\<close> out of range. The caller's
  id is an argument of \<open>updateMany\<close> and of \<open>conversationParticipant.update\<close>, and
  \<open>lastReadMessageId\<close> of \<open>updateMany\<close>: out of range, the first of these calls throws
  before any row is written.
\<close>

definition readMessages :: "state \<Rightarrow> int option \<Rightarrow> int \<Rightarrow> int option \<Rightarrow> time \<Rightarrow> state \<times> (error + unit)" where
  "readMessages s userId cid lastReadMessageId now =
     with_user userId s (\<lambda>u.
       if \<not> valid_Int cid then (s, Inl Internal)
       else
       case conversation_findUnique s cid of
         None \<Rightarrow> (s, Inl NotFound)
       | Some conversation \<Rightarrow>
           if \<not> valid_Int u \<or> (truthy lastReadMessageId \<and> \<not> valid_Int (the lastReadMessageId))
           then (s, Inl Internal)
           else
           (let s1 = (if truthy lastReadMessageId
                      then message_updateMany s
                             (\<lambda>m. conversationId m = cid \<and> m_id m \<le> the lastReadMessageId
                                   \<and> senderId m \<noteq> u \<and> status m \<in> set [''sent'', ''delivered''])
                             (\<lambda>m. m\<lparr>status := ''read''\<rparr>) now
                      else s);
                lastReadAt' =
                  (if truthy lastReadMessageId
                   then (case message_findUnique s1 (the lastReadMessageId) of
                           None \<Rightarrow> now
                         | Some lastMessage \<Rightarrow> createdAt lastMessage)
                   else now)
            in case participant_update s1 cid u (\<lambda>p. p\<lparr>lastReadAt := lastReadAt'\<rparr>) of
                 None \<Rightarrow> (s1, Inl Internal)
               | Some s2 \<Rightarrow>
                   (if truthy lastReadMessageId
                    then (case message_findUnique s2 (the lastReadMessageId) of
                            None \<Rightarrow> (s2, Inr ())
                          | Some message \<Rightarrow>
                              if senderId message \<noteq> u
                              then (broadcastToUser (senderId message)
                                      (MessageRead (the lastReadMessageId) cid u now) s2, Inr ())
                              else (s2, Inr ()))
                    else (s2, Inr ()))))"

subsection \<open>deleteMessage\<close>

text \<open>
  \<open>messageId\<close> is \<open>parseInt\<close> of a string of digits; \<open>message.findUnique\<close> throws
  when it is out of range.
\<close>

definition deleteMessage :: "state \<Rightarrow> int option \<Rightarrow> nat \<Rightarrow> time \<Rightarrow> state \<times> (error + unit)" where
  "deleteMessage s userId messageId now =
     with_user userId s (\<lambda>u.
       if \<not> valid_Int (int messageId) then (s, Inl Internal)
       else
       case message_findUnique s (int messageId) of
         None \<Rightarrow> (s, Inl NotFound)
       | Some message \<Rightarrow>
           (case conversation_findUnique s (conversationId message) of
              None \<Rightarrow> (s, Inl Internal)
            | Some conversation \<Rightarrow>
                if senderId message \<noteq> u then (s, Inl Forbidden)
                else
                  (case message_update s (int messageId)
                          (\<lambda>m. m\<lparr>deletedAt := Some now, content := None\<rparr>) now of
                     None \<Rightarrow> (s, Inl Internal)
                   | Some s1 \<Rightarrow>
                       (broadcastToUsers (otherParticipantIds s (conversationId message) u)
                          (MessageDeleted (int messageId) (conversationId message) now) s1,
                        Inr ()))))"

subsection \<open>initiateCall\<close>



section \<open>Integrity of the database\<close>

text \<open>
  What the schema guarantees of every state the handlers can reach: ids come from
  \<open>autoincrement\<close> and are positive, and the foreign keys of \<open>ConversationParticipant\<close>
  and \<open>Message\<close> point at existing rows.
\<close>

definition wf :: "state \<Rightarrow> bool" where
  "wf s =
     (list_all (\<lambda>u. 0 < u_id u) (users s)
      \<and> list_all (\<lambda>c. 0 < c_id c) (conversations s)
      \<and> list_all (\<lambda>m. 0 < m_id m) (messages s)
      \<and> list_all (\<lambda>p. p_userId p \<in> set (map u_id (users s))
                       \<and> p_conversationId p \<in> set (map c_id (conversations s))) (participants s)
      \<and> list_all (\<lambda>m. senderId m \<in> set (map u_id (users s))
                       \<and> conversationId m \<in> set (map c_id (conversations s))) (messages s))"

section \<open>Properties of the read receipt\<close>

text \<open>
  What \<open>markRead\<close> by \<open>u\<close> in conversation \<open>cid\<close> up to message id \<open>x\<close> does to one
  row: \<open>m\<close> is the row before and \<open>m'\<close> the row after. The row keeps its id; a row of
  the conversation with id at most \<open>x\<close>, another sender and status \<open>sent\<close> or
  \<open>delivered\<close> has status \<open>read\<close>; a row with a larger id is as before.
\<close>

definition marks_read :: "int \<Rightarrow> int \<Rightarrow> int \<Rightarrow> message \<Rightarrow> message \<Rightarrow> bool" where
  "marks_read u cid x m m' =
     (m_id m' = m_id m
      \<and> (conversationId m = cid \<and> m_id m \<le> x \<and> senderId m \<noteq> u
           \<and> status m \<in> {''sent'', ''delivered''} \<longrightarrow> status m' = ''read'')
      \<and> (x < m_id m \<longrightarrow> m' = m))"

section \<open>Reading the conversation list\<close>

text \<open>
  The message that the specification names as the last message of a conversation: the
  most recent one among those that are not soft-deleted.
\<close>

definition most_recent_non_deleted :: "state \<Rightarrow> int \<Rightarrow> message option" where
  "most_recent_non_deleted s cid =
     (case newest_first (filter (\<lambda>m. conversationId m = cid \<and> deletedAt m = None) (messages s)) of
        [] \<Rightarrow> None
      | m # _ \<Rightarrow> Some m)"

text \<open>The conversation ids of a reply of \<open>getConversations\<close>, each with the id of its last message.\<close>

definition lastMessage_ids :: "error + conversation_page \<Rightarrow> (int \<times> int option) list" where
  "lastMessage_ids r =
     (case r of
        Inl _ \<Rightarrow> []
      | Inr page \<Rightarrow> map (\<lambda>fc. (fc_id fc, map_option lm_id (fc_lastMessage fc))) (cp_conversations page))"

section \<open>A concrete state\<close>

text \<open>
  Users 3, 4 and 5; one direct conversation (id 1) between 3 and 4 holding two messages
  sent by 4, the older one soft-deleted; user 4 has one open and one closing connection,
  users 3 and 5 have none.
\<close>

definition demo_message :: "int \<Rightarrow> int \<Rightarrow> string option \<Rightarrow> time \<Rightarrow> time option \<Rightarrow> message" where
  "demo_message i sender text' t del =
     message_defaults\<lparr>m_id := i, conversationId := 1, senderId := sender, content := text',
       createdAt := t, updatedAt := (case del of None \<Rightarrow> t | Some d \<Rightarrow> d), deletedAt := del\<rparr>"

definition demo :: state where
  "demo =
     \<lparr>users =
        [\<lparr>u_id = 3, username = ''ann'', avatar = None, u_status = ''offline''\<rparr>,
         \<lparr>u_id = 4, username = ''bob'', avatar = None, u_status = ''online''\<rparr>,
         \<lparr>u_id = 5, username = ''cy'', avatar = None, u_status = ''offline''\<rparr>],
      conversations =
        [\<lparr>c_id = 1, c_type = ''direct'', groupId = None, lastMessageAt = Some 120,
          c_createdAt = 10, c_updatedAt = 120\<rparr>],
      participants =
        [\<lparr>p_id = 1, p_conversationId = 1, p_userId = 3, lastReadAt = 10, isArchived = False,
          isMuted = False, joinedAt = 10\<rparr>,
         \<lparr>p_id = 2, p_conversationId = 1, p_userId = 4, lastReadAt = 120, isArchived = False,
          isMuted = False, joinedAt = 10\<rparr>],
      messages =
        [demo_message 1 4 None 100 (Some 110), demo_message 2 4 (Some ''hi'') 120 None],
      connections =
        [4 \<mapsto> [\<lparr>ws_id = 7, readyState = 1\<rparr>, \<lparr>ws_id = 8, readyState = 2\<rparr>]],
      trace = []\<rparr>"

text \<open>The state after user 4 has deleted message 2: both messages of conversation 1 are soft-deleted.\<close>

definition demo_deleted :: state where
  "demo_deleted = fst (deleteMessage demo (Some 4) 2 130)"

section \<open>The dispatcher\<close>

lemma fold_ws_send:
  "fold (ws_send msg) cs s =
     s\<lparr>trace := trace s @ map (\<lambda>ws. WsSend (ws_id ws) msg) (filter (\<lambda>ws. readyState ws = WebSocket_OPEN) cs)\<rparr>"
  by (induction cs arbitrary: s) (simp_all add: ws_send_def emit_def)

lemma broadcastToUser_eq:
  "broadcastToUser userId msg s = s\<lparr>trace := trace s @ frames s [userId] msg\<rparr>"
  by (simp add: broadcastToUser_def frames_def live_sockets_def fold_ws_send split: option.split)

lemma broadcastToUsers_eq:
  "broadcastToUsers userIds msg s = s\<lparr>trace := trace s @ frames s userIds msg\<rparr>"
proof (induction userIds arbitrary: s)
  case Nil
  show ?case by (simp add: broadcastToUsers_def frames_def)
next
  case (Cons u us)
  have step: "broadcastToUsers (u # us) msg s = broadcastToUsers us msg (broadcastToUser u msg s)"
    by (simp add: broadcastToUsers_def broadcastToUser_def)
  have same: "frames (s\<lparr>trace := t\<rparr>) us msg = frames s us msg" for t
    by (simp add: frames_def live_sockets_def)
  show ?case
    by (simp add: step Cons.IH broadcastToUser_eq same) (simp add: frames_def)
qed

lemma frames_skip_offline:
  "connections s userId = None \<Longrightarrow> frames s (removeAll userId userIds) msg = frames s userIds msg"
  by (induction userIds) (auto simp add: frames_def live_sockets_def)

lemma frames_all_offline:
  "\<forall>u\<in>set userIds. connections s u = None \<Longrightarrow> frames s userIds msg = []"
  by (induction userIds) (simp_all add: frames_def live_sockets_def)

text \<open>
  C8. Dispatch to a user who has no entry in the connection registry does nothing: both
  dispatch functions are total, \<open>broadcastToUser\<close> returns the state as it was, and
  \<open>broadcastToUsers\<close> behaves as if that user were not in the target list (so it returns
  the state as it was when no target has an entry). Nothing is kept for later: the state
  has no queue, and a connection of that user added afterwards finds the trace of sent
  frames as it was before the dispatch.
\<close>

theorem dispatch_offline_noop:
  assumes "connections s userId = None"
  shows "broadcastToUser userId msg s = s
    \<and> broadcastToUsers userIds msg s = broadcastToUsers (removeAll userId userIds) msg s
    \<and> ((\<forall>u\<in>set userIds. connections s u = None) \<longrightarrow> broadcastToUsers userIds msg s = s)
    \<and> trace (addConnection userId ws (broadcastToUser userId msg s)) = trace s
    \<and> live_sockets (addConnection userId ws (broadcastToUser userId msg s)) userId
        = filter (\<lambda>w. readyState w = WebSocket_OPEN) [ws]"
proof -
  have one: "broadcastToUser userId msg s = s"
    using assms by (simp add: broadcastToUser_def)
  have skip: "broadcastToUsers userIds msg s = broadcastToUsers (removeAll userId userIds) msg s"
    using assms by (simp add: broadcastToUsers_eq frames_skip_offline)
  have none: "(\<forall>u\<in>set userIds. connections s u = None) \<longrightarrow> broadcastToUsers userIds msg s = s"
    by (simp add: broadcastToUsers_eq frames_all_offline)
  have later: "trace (addConnection userId ws s) = trace s"
    by (simp add: addConnection_def Let_def)
  have conn: "live_sockets (addConnection userId ws s) userId
        = filter (\<lambda>w. readyState w = WebSocket_OPEN) [ws]"
    using assms by (simp add: addConnection_def live_sockets_def)
  from one skip none later conn show ?thesis by simp
qed

theorem dispatch_offline_noop_witness:
  "connections demo 5 = None
   \<and> broadcastToUser 5 (MessageDeleted 2 1 130) demo = demo
   \<and> broadcastToUsers [5, 4, 3] (MessageDeleted 2 1 130) demo
       = broadcastToUsers [4, 3] (MessageDeleted 2 1 130) demo
   \<and> trace (broadcastToUsers [5, 4, 3] (MessageDeleted 2 1 130) demo)
       = [WsSend 7 (MessageDeleted 2 1 130)]"
proof -
  have h: "connections demo 5 = None"
    by (simp add: demo_def)
  note r = dispatch_offline_noop [OF h, of "MessageDeleted 2 1 130" "[5, 4, 3]" "\<lparr>ws_id = 9, readyState = 1\<rparr>"]
  have a: "broadcastToUser 5 (MessageDeleted 2 1 130) demo = demo"
    using r by (rule conjunct1)
  have b: "broadcastToUsers [5, 4, 3] (MessageDeleted 2 1 130) demo
       = broadcastToUsers [4, 3] (MessageDeleted 2 1 130) demo"
    using conjunct1 [OF conjunct2 [OF r]] by simp
  have t: "trace (broadcastToUsers [4, 3] (MessageDeleted 2 1 130) demo)
       = [WsSend 7 (MessageDeleted 2 1 130)]"
    by (simp add: broadcastToUsers_eq frames_def live_sockets_def WebSocket_OPEN_def demo_def)
  show ?thesis
    using h a b t by simp
qed

lemma find_map_preserve:
  "(\<And>x. P (f x) = P x) \<Longrightarrow> find P (map f xs) = map_option f (find P xs)"
  by (induction xs) simp_all




section \<open>The concrete state\<close>

lemma wf_demo: "wf demo"
  by (simp add: wf_def demo_def demo_message_def message_defaults_def)



section \<open>deleteMessage\<close>

lemma deleteMessage_id_out_of_range:
  "u \<noteq> 0 \<Longrightarrow> \<not> valid_Int (int mid) \<Longrightarrow> deleteMessage s (Some u) mid now = (s, Inl Internal)"
  by (simp add: deleteMessage_def with_user_def)

lemma deleteMessage_id_2_63:
  "deleteMessage demo (Some 4) 9223372036854775808 130 = (demo, Inl Internal)"
  by (simp add: deleteMessage_def with_user_def valid_Int_def)



section \<open>Facts about the persistence service\<close>

lemma fold_max_ge: "(a::int) \<le> fold max ids a \<and> (\<forall>i\<in>set ids. i \<le> fold max ids a)"
proof (induction ids arbitrary: a)
  case Nil show ?case by simp
next
  case (Cons x xs)
  from Cons [of "max x a"] show ?case by auto
qed

lemma autoincrement_fresh: "i \<in> set ids \<Longrightarrow> i < autoincrement ids"
  using fold_max_ge [of 0 ids] by (auto simp: autoincrement_def)

lemma autoincrement_pos: "0 < autoincrement ids"
  using fold_max_ge [of 0 ids] by (auto simp: autoincrement_def)

lemma find_fresh_append:
  "\<forall>x\<in>set xs. \<not> P x \<Longrightarrow> P y \<Longrightarrow> find P (xs @ [y]) = Some y"
  by (induction xs) simp_all

lemma find_append_old:
  "\<not> P y \<Longrightarrow> find P (xs @ [y]) = find P xs"
  by (induction xs) simp_all

lemma message_create_props:
  assumes "message_create s data now = Some (s1, m)"
  shows "m = data\<lparr>m_id := autoincrement (map m_id (messages s)), createdAt := now, updatedAt := now\<rparr>"
    and "messages s1 = messages s @ [m]"
    and "trace s1 = trace s @ [MessageCreate (m_id m)]"
    and "users s1 = users s" and "conversations s1 = conversations s"
    and "participants s1 = participants s" and "connections s1 = connections s"
    and "message_findUnique s (m_id m) = None"
    and "message_findUnique s1 (m_id m) = Some m"
    and "user_findUnique s (senderId data) \<noteq> None"
proof -
  from assms have nofail: "message_create s data now \<noteq> None" by simp
  from assms show m: "m = data\<lparr>m_id := autoincrement (map m_id (messages s)), createdAt := now, updatedAt := now\<rparr>"
    by (auto simp: message_create_def Let_def split: if_splits)
  from assms show ms: "messages s1 = messages s @ [m]"
    by (auto simp: message_create_def Let_def emit_def split: if_splits)
  from assms show "trace s1 = trace s @ [MessageCreate (m_id m)]"
    by (auto simp: message_create_def Let_def emit_def split: if_splits)
  from assms show "users s1 = users s" "conversations s1 = conversations s"
    "participants s1 = participants s" "connections s1 = connections s"
    by (auto simp: message_create_def Let_def emit_def split: if_splits)
  have fresh: "\<forall>x\<in>set (messages s). m_id x \<noteq> m_id m"
  proof
    fix x assume "x \<in> set (messages s)"
    then have "m_id x \<in> set (map m_id (messages s))" by simp
    from autoincrement_fresh [OF this] show "m_id x \<noteq> m_id m" by (simp add: m)
  qed
  then show "message_findUnique s (m_id m) = None"
    by (auto simp: message_findUnique_def find_None_iff)
  from fresh show "message_findUnique s1 (m_id m) = Some m"
    by (simp add: message_findUnique_def ms find_fresh_append)
  from assms show "user_findUnique s (senderId data) \<noteq> None"
    by (auto simp: message_create_def split: if_splits)
qed

lemma conversation_update_props:
  assumes "conversation_update s i f now = Some s'" and "\<And>c. c_id (f c) = c_id c"
  shows "conversation_findUnique s' j
           = map_option (\<lambda>c. if c_id c = i then (f c)\<lparr>c_updatedAt := now\<rparr> else c) (conversation_findUnique s j)"
    and "messages s' = messages s" and "participants s' = participants s" and "users s' = users s"
    and "connections s' = connections s" and "trace s' = trace s @ [ConversationUpdate i]"
    and "map c_id (conversations s') = map c_id (conversations s)"
    and "conversation_findUnique s i \<noteq> None"
  using assms
  by (auto simp: conversation_update_def conversation_findUnique_def emit_def find_map_preserve
           split: option.splits)

lemma participant_update_props:
  assumes "participant_update s cid uid f = Some s'"
    and "\<And>p. p_conversationId (f p) = p_conversationId p" and "\<And>p. p_userId (f p) = p_userId p"
  shows "participant_findUnique s' c u
           = map_option (\<lambda>p. if p_conversationId p = cid \<and> p_userId p = uid then f p else p)
               (participant_findUnique s c u)"
    and "messages s' = messages s" and "conversations s' = conversations s" and "users s' = users s"
    and "connections s' = connections s" and "trace s' = trace s @ [ParticipantUpdate cid uid]"
    and "participant_findUnique s cid uid \<noteq> None"
  using assms
  by (auto simp: participant_update_def participant_findUnique_def emit_def find_map_preserve
           split: option.splits)

lemma message_include_id: "message_include s m = Some fm \<Longrightarrow> fm_id fm = m_id m"
  by (auto simp: message_include_def format_message_def split: option.splits)

section \<open>sendMessage\<close>

text \<open>
  C1. Whenever \<open>sendMessage\<close> replies with success, the effects it added to the trace are,
  in this order: the creation of the message row, the update of the conversation, the
  update of the sender's participant row, and only then the \<open>new_message\<close> frames, which
  go to the open connections of the other participants (never to the sender). The state
  it leaves holds the new row (an id unused before) with status \<open>sent\<close>, the
  conversation's \<open>lastMessageAt\<close> equal to the creation time of the message, and the
  sender's \<open>lastReadAt\<close> equal to the time of the call.
\<close>

theorem sendMessage_order:
  assumes "sendMessage s userId cid content' type' mediaUrl' replyToId' now = (s', Inr fm)"
  shows "\<exists>u m c p. userId = Some u
    \<and> trace s' = trace s @ [MessageCreate (fm_id fm), ConversationUpdate cid, ParticipantUpdate cid u]
                   @ frames s (otherParticipantIds s cid u) (NewMessage fm)
    \<and> u \<notin> set (otherParticipantIds s cid u)
    \<and> message_findUnique s (fm_id fm) = None
    \<and> message_findUnique s' (fm_id fm) = Some m
    \<and> status m = ''sent'' \<and> conversationId m = cid \<and> senderId m = u \<and> content m = Some content'
    \<and> createdAt m = now
    \<and> conversation_findUnique s' cid = Some c \<and> lastMessageAt c = Some (createdAt m)
    \<and> participant_findUnique s' cid u = Some p \<and> lastReadAt p = now"
proof -
  from assms obtain u where u: "userId = Some u" "u \<noteq> 0"
    by (auto simp: sendMessage_def with_user_def split: option.splits if_splits)
  define data where "data = message_defaults\<lparr>conversationId := cid, senderId := u, content := Some content',
                        m_type := type', mediaUrl := mediaUrl', replyToId := replyToId',
                        status := ''sent''\<rparr>"
  from assms u obtain s1 m s2 s3 where
        cr: "message_create s data now = Some (s1, m)"
    and inc: "message_include s1 m = Some fm"
    and cu: "conversation_update s1 cid (\<lambda>c. c\<lparr>lastMessageAt := Some (createdAt m)\<rparr>) now = Some s2"
    and pu: "participant_update s2 cid u (\<lambda>p. p\<lparr>lastReadAt := now\<rparr>) = Some s3"
    and fin: "s' = broadcastToUsers (otherParticipantIds s cid u) (NewMessage fm) s3"
    unfolding sendMessage_def with_user_def data_def
    by (simp split: option.splits if_splits prod.splits)
  note M = message_create_props [OF cr]
  have C: "conversation_findUnique s2 j
           = map_option (\<lambda>c. if c_id c = cid then c\<lparr>lastMessageAt := Some (createdAt m), c_updatedAt := now\<rparr> else c)
               (conversation_findUnique s1 j)"
     "messages s2 = messages s1" "participants s2 = participants s1" "connections s2 = connections s1"
     "trace s2 = trace s1 @ [ConversationUpdate cid]" "conversation_findUnique s1 cid \<noteq> None" for j
    using conversation_update_props [OF cu] by simp_all
  have P: "participant_findUnique s3 c v
           = map_option (\<lambda>p. if p_conversationId p = cid \<and> p_userId p = u then p\<lparr>lastReadAt := now\<rparr> else p)
               (participant_findUnique s2 c v)"
     "messages s3 = messages s2" "conversations s3 = conversations s2" "connections s3 = connections s2"
     "trace s3 = trace s2 @ [ParticipantUpdate cid u]" "participant_findUnique s2 cid u \<noteq> None" for c v
    using participant_update_props [OF pu] by simp_all
  have fid: "fm_id fm = m_id m" by (rule message_include_id [OF inc])
  have fr: "frames s3 us ev = frames s us ev" for us ev
    by (simp add: frames_def live_sockets_def P C M)
  have tr: "trace s' = trace s @ [MessageCreate (fm_id fm), ConversationUpdate cid, ParticipantUpdate cid u]
                   @ frames s (otherParticipantIds s cid u) (NewMessage fm)"
    by (simp add: fin broadcastToUsers_eq fr P C M fid)
  have notin: "u \<notin> set (otherParticipantIds s cid u)"
    by (auto simp: otherParticipantIds_def)
  have msgs: "messages s' = messages s1" and convs: "conversations s' = conversations s2"
    and parts: "participants s' = participants s3"
    by (simp_all add: fin broadcastToUsers_eq P C)
  have m1: "message_findUnique s' (fm_id fm) = Some m"
    using M(9) by (simp add: message_findUnique_def msgs fid)
  have m0: "message_findUnique s (fm_id fm) = None"
    using M(8) by (simp add: fid)
  have mf: "status m = ''sent''" "conversationId m = cid" "senderId m = u" "content m = Some content'"
     "createdAt m = now"
    by (simp_all add: M(1) data_def)
  from C(6) obtain c0 where c0: "conversation_findUnique s1 cid = Some c0" by auto
  then have c0id: "c_id c0 = cid"
    by (auto simp: conversation_findUnique_def find_Some_iff)
  have c1: "conversation_findUnique s' cid = Some (c0\<lparr>lastMessageAt := Some (createdAt m), c_updatedAt := now\<rparr>)"
    using C(1) [of cid] c0 c0id by (simp add: conversation_findUnique_def convs)
  from P(6) obtain p0 where p0: "participant_findUnique s2 cid u = Some p0" by auto
  then have p0id: "p_conversationId p0 = cid \<and> p_userId p0 = u"
    by (auto simp: participant_findUnique_def find_Some_iff)
  have p1: "participant_findUnique s' cid u = Some (p0\<lparr>lastReadAt := now\<rparr>)"
    using P(1) [of cid u] p0 p0id by (simp add: participant_findUnique_def parts)
  show ?thesis
    using u tr notin m0 m1 mf c1 p1 by simp
qed


lemmas db_defs =
  user_findUnique_def conversation_findUnique_def message_findUnique_def participant_findUnique_def
  conversation_participants_def message_create_def message_update_def message_updateMany_def
  conversation_update_def participant_update_def conversation_create_def autoincrement_def emit_def
  sender_include_def replyTo_include_def message_include_def format_message_def
  otherParticipantIds_def with_user_def truthy_def valid_Int_def Let_def

lemmas demo_defs = demo_def demo_message_def message_defaults_def

lemmas dispatch_defs = broadcastToUsers_eq broadcastToUser_eq frames_def live_sockets_def WebSocket_OPEN_def

theorem sendMessage_order_witness:
  "\<exists>s' fm. sendMessage demo (Some 3) 1 ''yo'' ''text'' None None 130 = (s', Inr fm)
     \<and> fm_id fm = 3
     \<and> trace s' = [MessageCreate 3, ConversationUpdate 1, ParticipantUpdate 1 3, WsSend 7 (NewMessage fm)]
     \<and> map_option status (message_findUnique s' 3) = Some ''sent''
     \<and> map_option lastMessageAt (conversation_findUnique s' 1) = Some (Some 130)
     \<and> map_option lastReadAt (participant_findUnique s' 1 3) = Some 130"
proof -
  have "\<exists>s' fm. sendMessage demo (Some 3) 1 ''yo'' ''text'' None None 130 = (s', Inr fm) \<and> fm_id fm = 3"
    by (simp add: sendMessage_def db_defs demo_defs)
  then obtain s' fm where e: "sendMessage demo (Some 3) 1 ''yo'' ''text'' None None 130 = (s', Inr fm)"
    and i: "fm_id fm = 3" by blast
  have t: "trace demo = []" by (simp add: demo_def)
  have f: "frames demo (otherParticipantIds demo 1 3) (NewMessage fm) = [WsSend 7 (NewMessage fm)]"
    by (simp add: dispatch_defs db_defs demo_defs)
  from sendMessage_order [OF e] i t f
  have "trace s' = [MessageCreate 3, ConversationUpdate 1, ParticipantUpdate 1 3, WsSend 7 (NewMessage fm)]
     \<and> map_option status (message_findUnique s' 3) = Some ''sent''
     \<and> map_option lastMessageAt (conversation_findUnique s' 1) = Some (Some 130)
     \<and> map_option lastReadAt (participant_findUnique s' 1 3) = Some 130"
    by auto
  with e i show ?thesis by blast
qed


text \<open>
  The checks of \<open>sendMessage\<close> for an authenticated caller, with ids that fit a signed
  64-bit integer: a missing conversation is NotFound, a caller who is no participant is
  Forbidden, a non-zero \<open>replyToId\<close> that names no message of the conversation is
  InvalidArgument; each leaves the state as it was.
\<close>

lemma sendMessage_rejects:
  assumes "u \<noteq> 0" and "valid_Int cid"
  shows "(conversation_findUnique s cid = None \<longrightarrow>
            sendMessage s (Some u) cid content' type' mediaUrl' replyToId' now = (s, Inl NotFound))
    \<and> (conversation_findUnique s cid \<noteq> None
         \<and> \<not> list_ex (\<lambda>p. p_userId p = u) (conversation_participants s cid) \<longrightarrow>
            sendMessage s (Some u) cid content' type' mediaUrl' replyToId' now = (s, Inl Forbidden))
    \<and> (\<forall>r. conversation_findUnique s cid \<noteq> None
         \<and> list_ex (\<lambda>p. p_userId p = u) (conversation_participants s cid)
         \<and> replyToId' = Some r \<and> r \<noteq> 0 \<and> valid_Int r
         \<and> \<not> (\<exists>m. message_findUnique s r = Some m \<and> conversationId m = cid) \<longrightarrow>
            sendMessage s (Some u) cid content' type' mediaUrl' replyToId' now = (s, Inl InvalidArgument))
    \<and> (\<forall>e. snd (sendMessage s (Some u) cid content' type' mediaUrl' replyToId' now) = Inl e
         \<and> e \<in> {NotFound, Forbidden, InvalidArgument} \<longrightarrow>
            fst (sendMessage s (Some u) cid content' type' mediaUrl' replyToId' now) = s)"
  using assms(1)
  by (auto simp: sendMessage_def with_user_def truthy_def split: option.splits)

text \<open>
  C5, at \<open>replyToId = 0\<close>. The guard \<open>if (replyToId)\<close> is false for \<open>0\<close>, so the check
  of the replied message is skipped and \<open>create\<close> runs with \<open>replyToId = 0\<close>; no message
  has id 0, the foreign key fails and the reply is Internal (500), not InvalidArgument
  (400) as for any other id that names no message, such as 7. No message is created.
\<close>

theorem sendMessage_replyTo_zero:
  "message_findUnique demo 0 = None
   \<and> sendMessage demo (Some 3) 1 ''yo'' ''text'' None (Some 0) 130 = (demo, Inl Internal)
   \<and> sendMessage demo (Some 3) 1 ''yo'' ''text'' None (Some 7) 130 = (demo, Inl InvalidArgument)"
  by (simp add: sendMessage_def db_defs demo_defs)

section \<open>readMessages\<close>

lemma message_updateMany_props:
  assumes "\<And>m. m_id (f m) = m_id m"
  shows "message_findUnique (message_updateMany s wh f now) j
           = map_option (\<lambda>m. if wh m then (f m)\<lparr>updatedAt := now\<rparr> else m) (message_findUnique s j)"
    and "messages (message_updateMany s wh f now)
           = map (\<lambda>m. if wh m then (f m)\<lparr>updatedAt := now\<rparr> else m) (messages s)"
    and "conversations (message_updateMany s wh f now) = conversations s"
    and "participants (message_updateMany s wh f now) = participants s"
    and "users (message_updateMany s wh f now) = users s"
    and "connections (message_updateMany s wh f now) = connections s"
  using assms
  by (auto simp: message_updateMany_def message_findUnique_def emit_def find_map_preserve)

lemma list_all2_map_same:
  "(\<And>x. x \<in> set xs \<Longrightarrow> P x (g x)) \<Longrightarrow> list_all2 P xs (map g xs)"
  by (simp add: list_all2_map2 list_all2_same)

lemma wf_message_id_pos: "wf s \<Longrightarrow> m \<in> set (messages s) \<Longrightarrow> 0 < m_id m"
  by (simp add: wf_def list_all_iff)

lemma wf_no_message_0: "wf s \<Longrightarrow> message_findUnique s 0 = None"
  using wf_message_id_pos [of s] by (fastforce simp: message_findUnique_def find_None_iff)

lemma readMessages_messages:
  assumes "u \<noteq> 0" and "conversation_findUnique s cid \<noteq> None"
    and "valid_Int cid" and "valid_Int u" and "truthy X \<longrightarrow> valid_Int (the X)"
  shows "messages (fst (readMessages s (Some u) cid X now))
           = (if truthy X
              then map (\<lambda>m. if conversationId m = cid \<and> m_id m \<le> the X \<and> senderId m \<noteq> u
                                \<and> status m \<in> set [''sent'', ''delivered'']
                             then m\<lparr>status := ''read'', updatedAt := now\<rparr> else m) (messages s)
              else messages s)"
  using assms
  by (auto simp: readMessages_def with_user_def Let_def message_updateMany_props
        participant_update_props broadcastToUser_eq split: option.splits)

lemma readMessages_marks:
  assumes "wf s" and "u \<noteq> 0" and "conversation_findUnique s cid \<noteq> None"
    and "valid_Int cid" and "valid_Int u" and "x \<noteq> 0 \<longrightarrow> valid_Int x"
  shows "list_all2 (marks_read u cid x) (messages s)
           (messages (fst (readMessages s (Some u) cid (Some x) now)))"
proof -
  have tv: "truthy (Some x) \<longrightarrow> valid_Int (the (Some x))"
    using assms(6) by (simp add: truthy_def)
  note M = readMessages_messages [OF assms(2,3,4,5) tv]
  show ?thesis
    unfolding M
  proof (cases "x = 0")
    case True
    have "list_all2 (marks_read u cid 0) (messages s) (messages s)"
      using wf_message_id_pos [OF assms(1)]
      by (fastforce simp: list_all2_same marks_read_def)
    with True show "list_all2 (marks_read u cid x) (messages s)
        (if truthy (Some x)
         then map (\<lambda>m. if conversationId m = cid \<and> m_id m \<le> the (Some x) \<and> senderId m \<noteq> u
                                \<and> status m \<in> set [''sent'', ''delivered'']
                             then m\<lparr>status := ''read'', updatedAt := now\<rparr> else m) (messages s)
         else messages s)"
      by (simp add: truthy_def)
  next
    case False
    then show "list_all2 (marks_read u cid x) (messages s)
        (if truthy (Some x)
         then map (\<lambda>m. if conversationId m = cid \<and> m_id m \<le> the (Some x) \<and> senderId m \<noteq> u
                                \<and> status m \<in> set [''sent'', ''delivered'']
                             then m\<lparr>status := ''read'', updatedAt := now\<rparr> else m) (messages s)
         else messages s)"
      by (simp add: truthy_def)
         (rule list_all2_map_same, simp add: marks_read_def)
  qed
qed

lemma readMessages_success:
  assumes "readMessages s (Some u) cid X now = (s', Inr r)"
  shows "u \<noteq> 0" and "conversation_findUnique s cid \<noteq> None" and "valid_Int cid" and "valid_Int u"
    and "truthy X \<longrightarrow> valid_Int (the X)"
  using assms
  by (auto simp: readMessages_def with_user_def split: if_splits option.splits)

lemma readMessages_valid:
  assumes "u \<noteq> 0" and "conversation_findUnique s cid \<noteq> None"
    and "valid_Int cid" and "valid_Int u" and "x \<noteq> 0 \<longrightarrow> valid_Int x"
  shows "readMessages s (Some u) cid (Some x) now =
     (let s1 = (if x \<noteq> 0
                then message_updateMany s
                       (\<lambda>m. conversationId m = cid \<and> m_id m \<le> x
                             \<and> senderId m \<noteq> u \<and> status m \<in> set [''sent'', ''delivered''])
                       (\<lambda>m. m\<lparr>status := ''read''\<rparr>) now
                else s);
          t = (if x \<noteq> 0
               then (case message_findUnique s1 x of None \<Rightarrow> now | Some lastMessage \<Rightarrow> createdAt lastMessage)
               else now)
      in case participant_update s1 cid u (\<lambda>p. p\<lparr>lastReadAt := t\<rparr>) of
           None \<Rightarrow> (s1, Inl Internal)
         | Some s2 \<Rightarrow>
             (if x \<noteq> 0
              then (case message_findUnique s2 x of
                      None \<Rightarrow> (s2, Inr ())
                    | Some message \<Rightarrow>
                        if senderId message \<noteq> u
                        then (broadcastToUser (senderId message) (MessageRead x cid u now) s2, Inr ())
                        else (s2, Inr ()))
              else (s2, Inr ())))"
  using assms
  by (auto simp: readMessages_def with_user_def truthy_def Let_def split: option.splits)

lemma readMessages_lastReadAt:
  assumes "wf s" and "readMessages s (Some u) cid (Some x) now = (s', Inr r)"
  shows "\<exists>p. participant_findUnique s' cid u = Some p
        \<and> lastReadAt p = (case message_findUnique s x of None \<Rightarrow> now | Some m \<Rightarrow> createdAt m)"
proof -
  define wh where "wh = (\<lambda>m::message. conversationId m = cid \<and> m_id m \<le> x
                                   \<and> senderId m \<noteq> u \<and> status m \<in> set [''sent'', ''delivered''])"
  define s1 where "s1 = (if x \<noteq> 0 then message_updateMany s wh (\<lambda>m. m\<lparr>status := ''read''\<rparr>) now else s)"
  define t where "t = (if x \<noteq> 0 then (case message_findUnique s1 x of None \<Rightarrow> now
                         | Some lastMessage \<Rightarrow> createdAt lastMessage) else now)"
  note S = readMessages_success [OF assms(2)]
  have xv: "x \<noteq> 0 \<longrightarrow> valid_Int x"
    using S(5) by (simp add: truthy_def)
  from assms(2) obtain s2 where pu: "participant_update s1 cid u (\<lambda>p. p\<lparr>lastReadAt := t\<rparr>) = Some s2"
    and parts: "participants s' = participants s2"
    unfolding readMessages_valid [OF S(1,2,3,4) xv]
    by (auto simp: Let_def s1_def t_def wh_def broadcastToUser_eq split: option.splits if_splits)
  have t_eq: "t = (case message_findUnique s x of None \<Rightarrow> now | Some m \<Rightarrow> createdAt m)"
  proof (cases "x = 0")
    case True
    with wf_no_message_0 [OF assms(1)] show ?thesis by (simp add: t_def)
  next
    case False
    then show ?thesis
      by (simp add: t_def s1_def message_updateMany_props split: option.splits)
  qed
  have P: "participant_findUnique s2 cid u
           = map_option (\<lambda>p. if p_conversationId p = cid \<and> p_userId p = u then p\<lparr>lastReadAt := t\<rparr> else p)
               (participant_findUnique s1 cid u)"
     "participant_findUnique s1 cid u \<noteq> None"
    using participant_update_props [OF pu] by simp_all
  from P(2) obtain p0 where p0: "participant_findUnique s1 cid u = Some p0" by auto
  then have "p_conversationId p0 = cid \<and> p_userId p0 = u"
    by (auto simp: participant_findUnique_def find_Some_iff)
  with P(1) p0 have "participant_findUnique s' cid u = Some (p0\<lparr>lastReadAt := t\<rparr>)"
    by (simp add: participant_findUnique_def parts)
  then show ?thesis by (simp add: t_eq)
qed

text \<open>
  C3. On a database with positive ids, when \<open>readMessages\<close> by \<open>u\<close> for conversation
  \<open>cid\<close> with \<open>lastReadMessageId = x\<close> replies with success, the table of messages
  afterwards is the table before, row by row, where every row of the conversation with
  id at most \<open>x\<close>, a sender other than \<open>u\<close> and status \<open>sent\<close> or \<open>delivered\<close> now
  has status \<open>read\<close> and every row with id above \<open>x\<close> is unchanged; and the caller's
  participant row has \<open>lastReadAt\<close> equal to the creation time of message \<open>x\<close>, or to
  the time of the call when there is no message \<open>x\<close>.
\<close>

theorem readMessages_marks_read:
  assumes "wf s" and "readMessages s (Some u) cid (Some x) now = (s', Inr r)"
  shows "list_all2 (marks_read u cid x) (messages s) (messages s')
    \<and> (\<exists>p. participant_findUnique s' cid u = Some p
          \<and> lastReadAt p = (case message_findUnique s x of None \<Rightarrow> now | Some m \<Rightarrow> createdAt m))"
proof -
  note S = readMessages_success [OF assms(2)]
  have xv: "x \<noteq> 0 \<longrightarrow> valid_Int x"
    using S(5) by (simp add: truthy_def)
  from readMessages_marks [OF assms(1) S(1,2,3,4) xv, of now] assms(2)
  have "list_all2 (marks_read u cid x) (messages s) (messages s')" by simp
  with readMessages_lastReadAt [OF assms] show ?thesis by simp
qed

text \<open>
  C9. \<open>readMessages\<close> never replies Forbidden, and it replies NotFound only when the
  conversation does not exist; for an authenticated caller and a conversation id that
  fits a signed 64-bit integer it does reply NotFound whenever the conversation does not
  exist. When the conversation exists and the caller is not one of its participants
  (all ids fitting a signed 64-bit integer), the messages of other senders up to
  \<open>lastReadMessageId\<close> are still set to \<open>read\<close> (the bulk update runs before the
  participant row is looked for), and the reply is Internal because the update of the
  missing participant row throws.
\<close>

theorem readMessages_no_membership_check:
  "snd (readMessages s userId cid X now) \<noteq> Inl Forbidden
   \<and> (snd (readMessages s userId cid X now) = Inl NotFound \<longrightarrow> conversation_findUnique s cid = None)
   \<and> (\<forall>u. userId = Some u \<and> u \<noteq> 0 \<and> valid_Int cid \<and> conversation_findUnique s cid = None \<longrightarrow>
        snd (readMessages s userId cid X now) = Inl NotFound)
   \<and> (\<forall>u x. wf s \<and> userId = Some u \<and> u \<noteq> 0 \<and> valid_Int u \<and> X = Some x \<and> valid_Int x
          \<and> valid_Int cid
          \<and> conversation_findUnique s cid \<noteq> None \<and> participant_findUnique s cid u = None \<longrightarrow>
        snd (readMessages s userId cid X now) = Inl Internal
        \<and> list_all2 (marks_read u cid x) (messages s) (messages (fst (readMessages s userId cid X now))))"
proof (intro conjI allI impI)
  show "snd (readMessages s userId cid X now) \<noteq> Inl Forbidden"
    by (auto simp: readMessages_def with_user_def Let_def split: option.splits)
next
  assume "snd (readMessages s userId cid X now) = Inl NotFound"
  then show "conversation_findUnique s cid = None"
    by (auto simp: readMessages_def with_user_def Let_def split: option.splits if_splits)
next
  fix u assume "userId = Some u \<and> u \<noteq> 0 \<and> valid_Int cid \<and> conversation_findUnique s cid = None"
  then show "snd (readMessages s userId cid X now) = Inl NotFound"
    by (simp add: readMessages_def with_user_def)
next
  fix u x
  assume h: "wf s \<and> userId = Some u \<and> u \<noteq> 0 \<and> valid_Int u \<and> X = Some x \<and> valid_Int x
          \<and> valid_Int cid
          \<and> conversation_findUnique s cid \<noteq> None \<and> participant_findUnique s cid u = None"
  have np: "participant_findUnique (message_updateMany s wh f now) cid u = None" for wh f
    using h by (simp add: participant_findUnique_def message_updateMany_def emit_def)
  have run: "readMessages s userId cid X now = readMessages s (Some u) cid (Some x) now"
    using h by simp
  have xv: "x \<noteq> 0 \<longrightarrow> valid_Int x" using h by simp
  have c: "conversation_findUnique s cid \<noteq> None" and u0: "u \<noteq> 0" and vc: "valid_Int cid"
    and vu: "valid_Int u" and w: "wf s"
    using h by simp_all
  show "snd (readMessages s userId cid X now) = Inl Internal"
    unfolding run readMessages_valid [OF u0 c vc vu xv]
    using h np by (simp add: Let_def participant_update_def)
  show "list_all2 (marks_read u cid x) (messages s) (messages (fst (readMessages s userId cid X now)))"
    unfolding run by (rule readMessages_marks [OF w u0 c vc vu xv])
qed

lemma readMessages_id_out_of_range:
  "snd (readMessages demo (Some 5) 1 (Some 100000000000000000000) 130) = Inl Internal
   \<and> fst (readMessages demo (Some 5) 1 (Some 100000000000000000000) 130) = demo
   \<and> readMessages demo (Some 5) 100000000000000000000 (Some 2) 130 = (demo, Inl Internal)"
  by (simp add: readMessages_def with_user_def truthy_def valid_Int_def conversation_findUnique_def demo_def)

lemma demo_messages:
  "messages demo = [demo_message 1 4 None 100 (Some 110), demo_message 2 4 (Some ''hi'') 120 None]"
  by (simp add: demo_def)

theorem readMessages_marks_read_witness:
  "wf demo
   \<and> (\<exists>s' r. readMessages demo (Some 3) 1 (Some 1) 130 = (s', Inr r)
         \<and> map status (messages s') = [''read'', ''sent'']
         \<and> messages s' ! 1 = messages demo ! 1
         \<and> map_option lastReadAt (participant_findUnique s' 1 3) = Some 100)"
proof -
  have "\<exists>s' r. readMessages demo (Some 3) 1 (Some 1) 130 = (s', Inr r)"
    by (simp add: readMessages_def db_defs demo_defs)
  then obtain s' r where e: "readMessages demo (Some 3) 1 (Some 1) 130 = (s', Inr r)" by blast
  have m1: "message_findUnique demo 1 = Some (demo_message 1 4 None 100 (Some 110))"
    by (simp add: message_findUnique_def demo_defs)
  from readMessages_marks_read [OF wf_demo e]
  have a: "list_all2 (marks_read 3 1 1) (messages demo) (messages s')"
    and b: "\<exists>p. participant_findUnique s' 1 3 = Some p \<and> lastReadAt p = 100"
    by (simp_all add: m1 demo_message_def)
  from a have "map status (messages s') = [''read'', ''sent''] \<and> messages s' ! 1 = messages demo ! 1"
    by (auto simp: demo_messages list_all2_Cons1 marks_read_def demo_message_def message_defaults_def)
  with wf_demo e b show ?thesis by auto
qed

theorem readMessages_no_membership_check_witness:
  "wf demo \<and> valid_Int 5 \<and> valid_Int 2 \<and> valid_Int 1 \<and> valid_Int 9
   \<and> conversation_findUnique demo 1 \<noteq> None \<and> participant_findUnique demo 1 5 = None
   \<and> snd (readMessages demo (Some 5) 1 (Some 2) 130) = Inl Internal
   \<and> map status (messages (fst (readMessages demo (Some 5) 1 (Some 2) 130))) = [''read'', ''read'']
   \<and> conversation_findUnique demo 9 = None
   \<and> snd (readMessages demo (Some 5) 9 (Some 2) 130) = Inl NotFound"
proof -
  have c: "conversation_findUnique demo 1 \<noteq> None" and p: "participant_findUnique demo 1 5 = None"
    and c9: "conversation_findUnique demo 9 = None"
    by (simp_all add: conversation_findUnique_def participant_findUnique_def demo_def)
  have v: "valid_Int 5" "valid_Int 2" "valid_Int 1" "valid_Int 9"
    by (simp_all add: valid_Int_def)
  note r = readMessages_no_membership_check [of demo "Some 5" 1 "Some 2" 130]
  from r wf_demo c p v
  have i: "snd (readMessages demo (Some 5) 1 (Some 2) 130) = Inl Internal"
    and a: "list_all2 (marks_read 5 1 2) (messages demo)
              (messages (fst (readMessages demo (Some 5) 1 (Some 2) 130)))"
    by simp_all
  from a have st: "map status (messages (fst (readMessages demo (Some 5) 1 (Some 2) 130))) = [''read'', ''read'']"
    by (auto simp: demo_messages list_all2_Cons1 marks_read_def demo_message_def message_defaults_def)
  from readMessages_no_membership_check [of demo "Some 5" 9 "Some 2" 130] c9 v
  have n: "snd (readMessages demo (Some 5) 9 (Some 2) 130) = Inl NotFound"
    by simp
  from wf_demo v c p i st c9 n show ?thesis by simp
qed

section \<open>getMessages\<close>

text \<open>
  C10. Whenever \<open>getMessages\<close> replies with success, whatever page, limit and
  \<open>before\<close> cursor were asked for, the caller's participant row of that conversation
  has \<open>lastReadAt\<close> equal to the time of the call and no message was changed; so, no
  message being dated later than the time of the call, the unread count of the caller for
  that conversation (the count query of the conversation list at the new \<open>lastReadAt\<close>)
  is zero.
\<close>

theorem getMessages_resets_unread:
  assumes "getMessages s userId cid pageNum limitNum before now = (s', Inr r)"
  shows "\<exists>u p. userId = Some u
    \<and> participant_findUnique s' (int cid) u = Some p \<and> lastReadAt p = now
    \<and> messages s' = messages s
    \<and> ((\<forall>m\<in>set (messages s). createdAt m \<le> now) \<longrightarrow>
          message_count_unread s' (int cid) (lastReadAt p) u = 0)"
proof -
  from assms obtain u where u: "userId = Some u" "u \<noteq> 0"
    by (auto simp: getMessages_def with_user_def split: option.splits if_splits)
  from assms u obtain s1 where pu: "participant_update s (int cid) u (\<lambda>p. p\<lparr>lastReadAt := now\<rparr>) = Some s1"
    and fin: "s' = s1"
    unfolding getMessages_def with_user_def Let_def
    by (simp split: option.splits if_splits)
  have P: "participant_findUnique s1 (int cid) u
           = map_option (\<lambda>p. if p_conversationId p = int cid \<and> p_userId p = u then p\<lparr>lastReadAt := now\<rparr> else p)
               (participant_findUnique s (int cid) u)"
     "messages s1 = messages s" "participant_findUnique s (int cid) u \<noteq> None"
    using participant_update_props [OF pu] by simp_all
  from P(3) obtain p0 where p0: "participant_findUnique s (int cid) u = Some p0" by auto
  then have "p_conversationId p0 = int cid \<and> p_userId p0 = u"
    by (auto simp: participant_findUnique_def find_Some_iff)
  with P(1) p0 have p1: "participant_findUnique s' (int cid) u = Some (p0\<lparr>lastReadAt := now\<rparr>)"
    by (simp add: fin)
  have cnt: "(\<forall>m\<in>set (messages s). createdAt m \<le> now) \<longrightarrow> message_count_unread s' (int cid) now u = 0"
    by (auto simp: message_count_unread_def fin P(2) filter_empty_conv)
  show ?thesis
    using u p1 cnt by (simp add: fin P(2))
qed

theorem getMessages_resets_unread_witness:
  "message_count_unread demo 1 (case participant_findUnique demo 1 3 of None \<Rightarrow> 0 | Some p \<Rightarrow> lastReadAt p) 3 = 2
   \<and> list_all (\<lambda>m. createdAt m \<le> 130) (messages demo)
   \<and> (\<exists>s' r. getMessages demo (Some 3) 1 2 5 (Some 1) 130 = (s', Inr r)
         \<and> mp_messages r = []
         \<and> map_option lastReadAt (participant_findUnique s' 1 3) = Some 130
         \<and> message_count_unread s' 1 130 3 = 0)"
proof -
  have before: "message_count_unread demo 1 (case participant_findUnique demo 1 3 of None \<Rightarrow> 0 | Some p \<Rightarrow> lastReadAt p) 3 = 2"
    by (simp add: message_count_unread_def participant_findUnique_def demo_defs)
  have old: "\<forall>m\<in>set (messages demo). createdAt m \<le> 130"
    by (simp add: demo_defs)
  have "\<exists>s' r. getMessages demo (Some 3) 1 2 5 (Some 1) 130 = (s', Inr r) \<and> mp_messages r = []"
    by (simp add: getMessages_def newest_first_def db_defs demo_defs)
  then obtain s' r where e: "getMessages demo (Some 3) 1 2 5 (Some 1) 130 = (s', Inr r)"
    and m: "mp_messages r = []" by blast
  from getMessages_resets_unread [OF e] old
  have "map_option lastReadAt (participant_findUnique s' 1 3) = Some 130
         \<and> message_count_unread s' 1 130 3 = 0"
    by auto
  with e m have "\<exists>s' r. getMessages demo (Some 3) 1 2 5 (Some 1) 130 = (s', Inr r)
         \<and> mp_messages r = []
         \<and> map_option lastReadAt (participant_findUnique s' 1 3) = Some 130
         \<and> message_count_unread s' 1 130 3 = 0"
    by blast
  with before old show ?thesis by (simp add: list_all_iff)
qed

section \<open>initiateCall\<close>

lemma wf_participant_user:
  "wf s \<Longrightarrow> p \<in> set (participants s) \<Longrightarrow> \<exists>usr. user_findUnique s (p_userId p) = Some usr"
proof -
  assume w: "wf s" and p: "p \<in> set (participants s)"
  then have "p_userId p \<in> set (map u_id (users s))"
    by (simp add: wf_def list_all_iff)
  then have "user_findUnique s (p_userId p) \<noteq> None"
    by (auto simp: user_findUnique_def find_None_iff)
  then show ?thesis by auto
qed






section \<open>getConversations\<close>

lemma those_map_Some:
  "those (map f xs) = Some ys \<Longrightarrow> y \<in> set ys \<Longrightarrow> \<exists>x\<in>set xs. f x = Some y"
proof (induction xs arbitrary: ys)
  case Nil then show ?case by simp
next
  case (Cons a xs)
  then show ?case by (auto split: option.splits)
qed

lemma sort_key_head:
  assumes "sort_key f xs = y # ys"
  shows "y \<in> set xs \<and> (\<forall>x\<in>set xs. f y \<le> f x)"
proof -
  have "set (sort_key f xs) = set xs" by simp
  with assms have s: "set xs = insert y (set ys)" by simp
  have "sorted (map f (sort_key f xs))" by (rule sorted_sort_key)
  with assms have "\<forall>x\<in>set ys. f y \<le> f x" by simp
  with s show ?thesis by auto
qed

lemma find_filter: "find P (filter Q xs) = find (\<lambda>x. Q x \<and> P x) xs"
  by (induction xs) simp_all

lemma lastMessage_include_newest:
  assumes "lastMessage_include s cid = Some r"
  shows "case r of
           None \<Rightarrow> \<forall>m\<in>set (messages s). conversationId m \<noteq> cid
         | Some lm \<Rightarrow>
             \<exists>m\<in>set (messages s). conversationId m = cid
               \<and> lm_id lm = m_id m \<and> lm_content lm = content m \<and> lm_createdAt lm = createdAt m
               \<and> lm_senderId lm = senderId m
               \<and> (\<forall>m'\<in>set (messages s). conversationId m' = cid \<longrightarrow> createdAt m' \<le> createdAt m)"
proof (cases "newest_first (filter (\<lambda>m. conversationId m = cid) (messages s))")
  case Nil
  then have "filter (\<lambda>m. conversationId m = cid) (messages s) = []"
    by (metis length_0_conv length_sort newest_first_def)
  with Nil assms show ?thesis
    by (auto simp: lastMessage_include_def filter_empty_conv)
next
  case (Cons m ms)
  from sort_key_head [OF Cons [unfolded newest_first_def]]
  have m: "m \<in> set (messages s)" "conversationId m = cid"
    and newest: "\<forall>m'\<in>set (messages s). conversationId m' = cid \<longrightarrow> createdAt m' \<le> createdAt m"
    by auto
  from assms Cons obtain sender where "user_findUnique s (senderId m) = Some sender"
    and "r = Some \<lparr>lm_id = m_id m, lm_content = content m, lm_type = m_type m,
                   lm_createdAt = createdAt m, lm_senderId = senderId m,
                   lm_senderName = username sender\<rparr>"
    by (auto simp: lastMessage_include_def split: option.splits)
  with m newest show ?thesis by auto
qed

text \<open>
  C4, as the code has it. Whenever \<open>getConversations\<close> replies with success, the state is
  untouched and, for every conversation \<open>fc\<close> of the reply, the caller has a participant
  row \<open>p\<close> in it; its last message is null exactly when the conversation has no message
  at all, and otherwise is a message of that conversation, soft-deleted or not, that no
  message of the conversation is more recent than; and its unread count is the number of
  messages of the conversation created after \<open>lastReadAt p\<close> by a sender other than the
  caller.
\<close>

theorem getConversations_annotations:
  assumes "getConversations s userId pageNum limitNum = (s', Inr page)"
    and "fc \<in> set (cp_conversations page)"
  shows "\<exists>u p. userId = Some u \<and> s' = s
    \<and> participant_findUnique s (fc_id fc) u = Some p
    \<and> (case fc_lastMessage fc of
          None \<Rightarrow> \<forall>m\<in>set (messages s). conversationId m \<noteq> fc_id fc
        | Some lm \<Rightarrow>
            \<exists>m\<in>set (messages s). conversationId m = fc_id fc
              \<and> lm_id lm = m_id m \<and> lm_content lm = content m \<and> lm_createdAt lm = createdAt m
              \<and> lm_senderId lm = senderId m
              \<and> (\<forall>m'\<in>set (messages s). conversationId m' = fc_id fc \<longrightarrow> createdAt m' \<le> createdAt m))
    \<and> fc_unreadCount fc
        = length (filter (\<lambda>m. conversationId m = fc_id fc \<and> lastReadAt p < createdAt m \<and> senderId m \<noteq> u)
                    (messages s))"
proof -
  from assms(1) obtain u where u: "userId = Some u" "u \<noteq> 0"
    by (auto simp: getConversations_def with_user_def split: option.splits if_splits)
  define matching where "matching = filter (\<lambda>c. list_ex (\<lambda>p. p_userId p = u) (conversation_participants s (c_id c)))
                              (conversations s)"
  define found where "found = take limitNum (drop (nat ((int pageNum - 1) * int limitNum))
                                (sort_key lastMessageAt_desc matching))"
  define ucp where "ucp = filter (\<lambda>p. p_userId p = u \<and> p_conversationId p \<in> set (map c_id found)) (participants s)"
  from assms(1) u have same: "s' = s"
    and th: "those (map (format_conversation s u ucp) found) = Some (cp_conversations page)"
    unfolding getConversations_def with_user_def Let_def matching_def found_def ucp_def
    by (auto split: option.splits if_splits)
  from those_map_Some [OF th assms(2)] obtain c where c: "c \<in> set found"
    and fc: "format_conversation s u ucp c = Some fc" by blast
  have "set found \<subseteq> set matching"
    unfolding found_def by (metis (no_types) set_take_subset set_drop_subset set_sort subset_trans)
  with c have cm: "list_ex (\<lambda>p. p_userId p = u) (conversation_participants s (c_id c))"
    by (auto simp: matching_def)
  have part: "find (\<lambda>p. p_conversationId p = c_id c) ucp = participant_findUnique s (c_id c) u"
  proof -
    have "find (\<lambda>p. p_conversationId p = c_id c) ucp
            = find (\<lambda>p. (p_userId p = u \<and> p_conversationId p \<in> set (map c_id found)) \<and> p_conversationId p = c_id c)
                (participants s)"
      by (simp add: ucp_def find_filter)
    also have "\<dots> = find (\<lambda>p. p_conversationId p = c_id c \<and> p_userId p = u) (participants s)"
      using c by (intro find_cong) auto
    finally show ?thesis by (simp add: participant_findUnique_def)
  qed
  from cm obtain p where p: "participant_findUnique s (c_id c) u = Some p"
    by (cases "participant_findUnique s (c_id c) u")
       (auto simp: participant_findUnique_def find_None_iff list_ex_iff conversation_participants_def)
  from fc obtain lastMessage where lm: "lastMessage_include s (c_id c) = Some lastMessage"
    and fc_eq: "fc_id fc = c_id c" "fc_lastMessage fc = lastMessage"
       "fc_unreadCount fc = message_count_unread s (c_id c) (lastReadAt p) u"
    by (auto simp: format_conversation_def Let_def part p split: option.splits)
  have L: "case fc_lastMessage fc of
          None \<Rightarrow> \<forall>m\<in>set (messages s). conversationId m \<noteq> fc_id fc
        | Some lm \<Rightarrow>
            \<exists>m\<in>set (messages s). conversationId m = fc_id fc
              \<and> lm_id lm = m_id m \<and> lm_content lm = content m \<and> lm_createdAt lm = createdAt m
              \<and> lm_senderId lm = senderId m
              \<and> (\<forall>m'\<in>set (messages s). conversationId m' = fc_id fc \<longrightarrow> createdAt m' \<le> createdAt m)"
    using lastMessage_include_newest [OF lm] unfolding fc_eq(1,2) .
  have U: "fc_unreadCount fc
        = length (filter (\<lambda>m. conversationId m = fc_id fc \<and> lastReadAt p < createdAt m \<and> senderId m \<noteq> u)
                    (messages s))"
    by (simp add: fc_eq message_count_unread_def)
  have P: "participant_findUnique s (fc_id fc) u = Some p"
    by (simp add: fc_eq p)
  from u same P L U show ?thesis by blast
qed

lemmas list_defs = getConversations_def format_conversation_def participants_include_def
  lastMessage_include_def newest_first_def lastMessageAt_desc_def message_count_unread_def

text \<open>
  C4, as stated, fails: in \<open>demo_deleted\<close> every message of conversation 1 is soft-deleted,
  so the most recent non-deleted message is null, yet the list for user 3 carries
  message 2 as the last message of conversation 1.
\<close>

theorem getConversations_lastMessage_deleted:
  "lastMessage_ids (snd (getConversations demo_deleted (Some 3) 1 20)) = [(1, Some 2)]
   \<and> map_option m_id (most_recent_non_deleted demo_deleted 1) = None
   \<and> map deletedAt (messages demo_deleted) = [Some 110, Some 130]"
  by (simp add: demo_deleted_def deleteMessage_def lastMessage_ids_def most_recent_non_deleted_def
        list_defs db_defs dispatch_defs demo_defs)


lemma demo_deleted_tables:
  "messages demo_deleted = [demo_message 1 4 None 100 (Some 110), demo_message 2 4 None 120 (Some 130)]"
  "participants demo_deleted = participants demo"
  by (simp_all add: demo_deleted_def deleteMessage_def db_defs dispatch_defs demo_defs)

theorem getConversations_annotations_witness:
  "\<exists>s' page fc. getConversations demo_deleted (Some 3) 1 20 = (s', Inr page)
     \<and> cp_conversations page = [fc] \<and> fc_id fc = 1
     \<and> map_option lm_id (fc_lastMessage fc) = Some 2
     \<and> map_option lm_content (fc_lastMessage fc) = Some None
     \<and> fc_unreadCount fc = 2"
proof -
  have "\<exists>s' page fc. getConversations demo_deleted (Some 3) 1 20 = (s', Inr page)
     \<and> cp_conversations page = [fc] \<and> fc_id fc = 1 \<and> map_option lm_id (fc_lastMessage fc) = Some 2
     \<and> map_option lm_content (fc_lastMessage fc) = Some None"
    by (simp add: demo_deleted_def deleteMessage_def list_defs db_defs dispatch_defs demo_defs)
  then obtain s' page fc where e: "getConversations demo_deleted (Some 3) 1 20 = (s', Inr page)"
    and l: "cp_conversations page = [fc]" and i: "fc_id fc = 1"
    and m: "map_option lm_id (fc_lastMessage fc) = Some 2"
           "map_option lm_content (fc_lastMessage fc) = Some None"
    by blast
  from l have mem: "fc \<in> set (cp_conversations page)" by simp
  have p: "participant_findUnique demo_deleted 1 3
             = Some \<lparr>p_id = 1, p_conversationId = 1, p_userId = 3, lastReadAt = 10, isArchived = False,
                     isMuted = False, joinedAt = 10\<rparr>"
    by (simp add: participant_findUnique_def demo_deleted_tables demo_def)
  from getConversations_annotations [OF e mem] i p
  have "fc_unreadCount fc
          = length (filter (\<lambda>m. conversationId m = 1 \<and> 10 < createdAt m \<and> senderId m \<noteq> 3)
                      (messages demo_deleted))"
    by auto
  then have "fc_unreadCount fc = 2"
    by (simp add: demo_deleted_tables demo_message_def message_defaults_def)
  with e l i m show ?thesis by blast
qed

section \<open>createDirectConversation\<close>

lemma is_direct_between_sym: "is_direct_between s u t c = is_direct_between s t u c"
  by (auto simp: is_direct_between_def list_all_iff)

lemma those_map_defined:
  "(\<And>x. x \<in> set xs \<Longrightarrow> f x \<noteq> None) \<Longrightarrow> those (map f xs) \<noteq> None"
proof (induction xs)
  case Nil show ?case by simp
next
  case (Cons a xs)
  then show ?case by (auto split: option.splits)
qed

lemma wf_message_sender:
  "wf s \<Longrightarrow> m \<in> set (messages s) \<Longrightarrow> user_findUnique s (senderId m) \<noteq> None"
proof -
  assume w: "wf s" and m: "m \<in> set (messages s)"
  then have "senderId m \<in> set (map u_id (users s))"
    by (simp add: wf_def list_all_iff)
  then show ?thesis
    by (auto simp: user_findUnique_def find_None_iff)
qed

lemma wf_participants_include:
  assumes "wf s"
  shows "participants_include s (conversation_participants s cid) \<noteq> None"
  unfolding participants_include_def
proof (rule those_map_defined)
  fix p assume "p \<in> set (conversation_participants s cid)"
  then have "p \<in> set (participants s)" by (simp add: conversation_participants_def)
  from wf_participant_user [OF assms this]
  show "map_option (Pair p) (user_findUnique s (p_userId p)) \<noteq> None" by auto
qed

lemma wf_lastMessage_include:
  assumes "wf s"
  shows "lastMessage_include s cid \<noteq> None"
proof (cases "newest_first (filter (\<lambda>m. conversationId m = cid) (messages s))")
  case Nil
  then show ?thesis by (simp add: lastMessage_include_def)
next
  case (Cons m ms)
  from sort_key_head [OF Cons [unfolded newest_first_def]]
  have "m \<in> set (messages s)" by auto
  from wf_message_sender [OF assms this] Cons show ?thesis
    by (auto simp: lastMessage_include_def)
qed

lemma wf_user_nonzero: "wf s \<Longrightarrow> user_findUnique s u \<noteq> None \<Longrightarrow> u \<noteq> 0"
  by (auto simp: wf_def list_all_iff user_findUnique_def find_None_iff)

lemma createDirectConversation_existing:
  assumes "wf s" and "u \<noteq> 0" and "u \<noteq> t" and "user_findUnique s t \<noteq> None"
    and "find (is_direct_between s u t) (conversations s) = Some c"
  shows "\<exists>r. createDirectConversation s (Some u) t now = (s, Inr r) \<and> fc_id r = c_id c"
proof -
  from wf_participants_include [OF assms(1), of "c_id c"] obtain ps
    where ps: "participants_include s (conversation_participants s (c_id c)) = Some ps" by auto
  from wf_lastMessage_include [OF assms(1), of "c_id c"] obtain lm
    where lm: "lastMessage_include s (c_id c) = Some lm" by auto
  from assms(4) obtain tu where tu: "user_findUnique s t = Some tu" by auto
  show ?thesis
    using assms(2,3,5) ps lm tu
    by (simp add: createDirectConversation_def with_user_def Let_def)
qed


lemma wf_conversation_fresh:
  assumes "wf s"
  shows "\<forall>p\<in>set (participants s). p_conversationId p \<noteq> autoincrement (map c_id (conversations s))"
proof
  fix p assume "p \<in> set (participants s)"
  with assms have "p_conversationId p \<in> set (map c_id (conversations s))"
    by (simp add: wf_def list_all_iff)
  from autoincrement_fresh [OF this]
  show "p_conversationId p \<noteq> autoincrement (map c_id (conversations s))" by simp
qed

lemma find_append_fresh:
  "\<forall>x\<in>set xs. \<not> P x \<Longrightarrow> find P (xs @ ys) = find P ys"
  by (induction xs) simp_all

lemma createDirectConversation_new:
  assumes "wf s" and "u \<noteq> t" and "user_findUnique s u \<noteq> None" and "user_findUnique s t \<noteq> None"
    and "find (is_direct_between s u t) (conversations s) = None"
  shows "\<exists>s1 r c. createDirectConversation s (Some u) t now = (s1, Inr r)
    \<and> fc_id r = c_id c
    \<and> conversations s1 = conversations s @ [c]
    \<and> c_type c = ''direct''
    \<and> conversation_findUnique s (c_id c) = None
    \<and> map p_userId (conversation_participants s1 (c_id c)) = [u, t]
    \<and> users s1 = users s \<and> messages s1 = messages s
    \<and> wf s1
    \<and> find (is_direct_between s1 u t) (conversations s1) = Some c
    \<and> find (is_direct_between s1 t u) (conversations s1) = Some c"
proof -
  define cid where "cid = autoincrement (map c_id (conversations s))"
  define pid where "pid = autoincrement (map p_id (participants s))"
  define c where "c = \<lparr>c_id = cid, c_type = ''direct'', groupId = None, lastMessageAt = None,
                        c_createdAt = now, c_updatedAt = now\<rparr>"
  define pu where "pu = \<lparr>p_id = pid, p_conversationId = cid, p_userId = u, lastReadAt = now,
                          isArchived = False, isMuted = False, joinedAt = now\<rparr>"
  define pt where "pt = \<lparr>p_id = pid + 1, p_conversationId = cid, p_userId = t, lastReadAt = now,
                          isArchived = False, isMuted = False, joinedAt = now\<rparr>"
  define s1 where "s1 = emit (ConversationCreate cid)
                          (s\<lparr>conversations := conversations s @ [c], participants := participants s @ [pu, pt]\<rparr>)"
  have u0: "u \<noteq> 0" by (rule wf_user_nonzero [OF assms(1,3)])
  from assms(4) obtain tu where tu: "user_findUnique s t = Some tu" by auto
  have cc: "conversation_create s ''direct'' [u, t] now = Some (s1, c)"
    using assms(2,3,4)
    by (simp add: conversation_create_def Let_def s1_def c_def pu_def pt_def cid_def pid_def)
  have run: "createDirectConversation s (Some u) t now
               = (s1, Inr \<lparr>fc_id = c_id c, fc_type = c_type c, fc_lastMessageAt = lastMessageAt c,
                           fc_unreadCount = 0, fc_isArchived = False, fc_isMuted = False,
                           fc_createdAt = c_createdAt c, fc_updatedAt = c_updatedAt c,
                           fc_participants = [tu], fc_lastMessage = None\<rparr>)"
    using u0 assms(2,5) tu cc
    by (simp add: createDirectConversation_def with_user_def)
  have tabs: "conversations s1 = conversations s @ [c]" "participants s1 = participants s @ [pu, pt]"
    "users s1 = users s" "messages s1 = messages s"
    by (simp_all add: s1_def emit_def)
  have cid_new: "\<forall>c'\<in>set (conversations s). c_id c' \<noteq> cid"
  proof
    fix c' assume "c' \<in> set (conversations s)"
    then have "c_id c' \<in> set (map c_id (conversations s))" by simp
    from autoincrement_fresh [OF this] show "c_id c' \<noteq> cid" by (simp add: cid_def)
  qed
  then have unused: "conversation_findUnique s (c_id c) = None"
    by (auto simp: conversation_findUnique_def find_None_iff c_def)
  have old_parts: "\<forall>p\<in>set (participants s). p_conversationId p \<noteq> cid"
    using wf_conversation_fresh [OF assms(1)] by (simp add: cid_def)
  have new_ps: "conversation_participants s1 cid = [pu, pt]"
    using old_parts by (simp add: conversation_participants_def tabs pu_def pt_def filter_empty_conv)
  have old_ps: "conversation_participants s1 (c_id c') = conversation_participants s (c_id c')"
    if "c' \<in> set (conversations s)" for c'
    using cid_new that by (auto simp: conversation_participants_def tabs pu_def pt_def)
  have old_direct: "is_direct_between s1 a b c' = is_direct_between s a b c'"
    if "c' \<in> set (conversations s)" for a b c'
    by (simp add: is_direct_between_def old_ps [OF that])
  have none_ut: "\<forall>c'\<in>set (conversations s). \<not> is_direct_between s u t c'"
    using assms(5) by (auto simp: find_None_iff)
  then have none_tu: "\<forall>c'\<in>set (conversations s). \<not> is_direct_between s t u c'"
    by (simp add: is_direct_between_sym [of s t u])
  have new_ut: "is_direct_between s1 u t c"
    by (simp add: is_direct_between_def c_def new_ps pu_def pt_def)
  then have new_tu: "is_direct_between s1 t u c"
    by (simp add: is_direct_between_sym [of s1 t u])
  have f_ut: "find (is_direct_between s1 u t) (conversations s1) = Some c"
    using none_ut new_ut old_direct by (simp add: tabs find_append_fresh)
  have f_tu: "find (is_direct_between s1 t u) (conversations s1) = Some c"
    using none_tu new_tu old_direct by (simp add: tabs find_append_fresh)
  have "u \<in> set (map u_id (users s))" "t \<in> set (map u_id (users s))"
    using assms(3,4) by (auto simp: user_findUnique_def find_None_iff)
  then have w1: "wf s1"
    using assms(1) autoincrement_pos [of "map c_id (conversations s)"]
    by (auto simp: wf_def tabs list_all_iff c_def pu_def pt_def cid_def)
  have ids: "map p_userId (conversation_participants s1 (c_id c)) = [u, t]"
    by (simp add: c_def new_ps pu_def pt_def)
  show ?thesis
    using run tabs unused ids w1 f_ut f_tu by (simp add: c_def)
qed


text \<open>
  C2. On a database whose foreign keys hold, for two different existing users \<open>A\<close> and
  \<open>B\<close>: a first call of \<open>createDirectConversation\<close> by one of them with the other as
  target, followed by a second call by either of them with the other as target, both
  succeed and reply with the same conversation id, and the second call leaves the state as
  the first left it. When a direct conversation between \<open>A\<close> and \<open>B\<close> exists already
  (the first one found whose participants all are \<open>A\<close> or \<open>B\<close> and include both), the
  first call replies with its id and changes nothing; otherwise the first call appends one
  new direct conversation, under an id unused before, whose participants are the caller
  and the target.
\<close>

theorem createDirectConversation_idempotent:
  assumes "wf s" and "A \<noteq> B" and "user_findUnique s A \<noteq> None" and "user_findUnique s B \<noteq> None"
    and "(u1, t1) = (A, B) \<or> (u1, t1) = (B, A)" and "(u2, t2) = (A, B) \<or> (u2, t2) = (B, A)"
  shows "\<exists>s1 r1 r2. createDirectConversation s (Some u1) t1 now1 = (s1, Inr r1)
    \<and> createDirectConversation s1 (Some u2) t2 now2 = (s1, Inr r2)
    \<and> fc_id r2 = fc_id r1
    \<and> (case find (is_direct_between s A B) (conversations s) of
          Some c \<Rightarrow> s1 = s \<and> fc_id r1 = c_id c
        | None \<Rightarrow>
            conversation_findUnique s (fc_id r1) = None
            \<and> (\<exists>c. conversations s1 = conversations s @ [c] \<and> c_id c = fc_id r1
                  \<and> c_type c = ''direct''
                  \<and> map p_userId (conversation_participants s1 (c_id c)) = [u1, t1]))"
proof -
  have ne1: "u1 \<noteq> t1" and ne2: "u2 \<noteq> t2"
    using assms(2,5,6) by auto
  have ex1: "user_findUnique s u1 \<noteq> None" "user_findUnique s t1 \<noteq> None"
    and ex2: "user_findUnique s u2 \<noteq> None" "user_findUnique s t2 \<noteq> None"
    using assms(3,4,5,6) by auto
  have d1: "is_direct_between s u1 t1 = is_direct_between s A B"
    using assms(5) is_direct_between_sym [of s B A] by auto
  have d2: "is_direct_between s u2 t2 = is_direct_between s A B"
    using assms(6) is_direct_between_sym [of s B A] by auto
  show ?thesis
  proof (cases "find (is_direct_between s A B) (conversations s)")
    case (Some c)
    from createDirectConversation_existing [OF assms(1) wf_user_nonzero [OF assms(1) ex1(1)] ne1 ex1(2), of c now1]
    obtain r1 where r1: "createDirectConversation s (Some u1) t1 now1 = (s, Inr r1)" "fc_id r1 = c_id c"
      using Some by (auto simp: d1)
    from createDirectConversation_existing [OF assms(1) wf_user_nonzero [OF assms(1) ex2(1)] ne2 ex2(2), of c now2]
    obtain r2 where r2: "createDirectConversation s (Some u2) t2 now2 = (s, Inr r2)" "fc_id r2 = c_id c"
      using Some by (auto simp: d2)
    from r1 r2 Some show ?thesis by auto
  next
    case None
    then have "find (is_direct_between s u1 t1) (conversations s) = None" by (simp add: d1)
    from createDirectConversation_new [OF assms(1) ne1 ex1 this, of now1]
    obtain s1 r1 c where r1: "createDirectConversation s (Some u1) t1 now1 = (s1, Inr r1)"
      and id1: "fc_id r1 = c_id c"
      and tabs: "conversations s1 = conversations s @ [c]" "c_type c = ''direct''"
         "conversation_findUnique s (c_id c) = None"
         "map p_userId (conversation_participants s1 (c_id c)) = [u1, t1]"
      and us: "users s1 = users s"
      and w1: "wf s1"
      and f: "find (is_direct_between s1 u1 t1) (conversations s1) = Some c"
             "find (is_direct_between s1 t1 u1) (conversations s1) = Some c"
      by (elim exE conjE)
    have "(u2, t2) = (u1, t1) \<or> (u2, t2) = (t1, u1)"
      using assms(5,6) by auto
    with f have f2: "find (is_direct_between s1 u2 t2) (conversations s1) = Some c" by auto
    have ex2': "user_findUnique s1 u2 \<noteq> None" "user_findUnique s1 t2 \<noteq> None"
      using ex2 by (simp_all add: user_findUnique_def us)
    from createDirectConversation_existing [OF w1 wf_user_nonzero [OF w1 ex2'(1)] ne2 ex2'(2) f2, of now2]
    obtain r2 where r2: "createDirectConversation s1 (Some u2) t2 now2 = (s1, Inr r2)" "fc_id r2 = c_id c"
      by auto
    from r1 id1 tabs r2 None show ?thesis by auto
  qed
qed


lemma demo_users:
  "user_findUnique demo 3 \<noteq> None" "user_findUnique demo 4 \<noteq> None" "user_findUnique demo 5 \<noteq> None"
  by (simp_all add: user_findUnique_def demo_def)

theorem createDirectConversation_idempotent_witness:
  "wf demo \<and> user_findUnique demo 3 \<noteq> None \<and> user_findUnique demo 4 \<noteq> None
   \<and> user_findUnique demo 5 \<noteq> None \<and> (3::int) \<noteq> 4 \<and> (3::int) \<noteq> 5
   \<and> (\<exists>r1 r2. createDirectConversation demo (Some 3) 4 200 = (demo, Inr r1)
          \<and> createDirectConversation demo (Some 4) 3 210 = (demo, Inr r2)
          \<and> fc_id r1 = 1 \<and> fc_id r2 = 1)
   \<and> (\<exists>s1 r1 r2. createDirectConversation demo (Some 3) 5 200 = (s1, Inr r1)
          \<and> createDirectConversation s1 (Some 5) 3 210 = (s1, Inr r2)
          \<and> fc_id r1 = 2 \<and> fc_id r2 = 2
          \<and> map c_id (conversations s1) = [1, 2])"
proof -
  have n34: "(3::int) \<noteq> 4" and n35: "(3::int) \<noteq> 5" by simp_all
  have f34: "find (is_direct_between demo 3 4) (conversations demo)
               = Some \<lparr>c_id = 1, c_type = ''direct'', groupId = None, lastMessageAt = Some 120,
                       c_createdAt = 10, c_updatedAt = 120\<rparr>"
    by (simp add: is_direct_between_def conversation_participants_def demo_def)
  have f35: "find (is_direct_between demo 3 5) (conversations demo) = None"
    by (simp add: is_direct_between_def conversation_participants_def demo_def)
  have cs: "map c_id (conversations demo) = [1]" by (simp add: demo_def)
  from createDirectConversation_idempotent [OF wf_demo n34 demo_users(1,2), of 3 4 4 3 200 210] f34
  have a: "\<exists>r1 r2. createDirectConversation demo (Some 3) 4 200 = (demo, Inr r1)
          \<and> createDirectConversation demo (Some 4) 3 210 = (demo, Inr r2)
          \<and> fc_id r1 = 1 \<and> fc_id r2 = 1"
    by auto
  have "\<exists>s1 r1. createDirectConversation demo (Some 3) 5 200 = (s1, Inr r1) \<and> fc_id r1 = 2"
    by (simp add: createDirectConversation_def is_direct_between_def db_defs demo_defs)
  then obtain s1 r1 where e: "createDirectConversation demo (Some 3) 5 200 = (s1, Inr r1)"
    and i: "fc_id r1 = 2" by blast
  from createDirectConversation_idempotent [OF wf_demo n35 demo_users(1,3), of 3 5 5 3 200 210] f35 e i cs
  have b: "\<exists>r2. createDirectConversation s1 (Some 5) 3 210 = (s1, Inr r2) \<and> fc_id r2 = 2
          \<and> map c_id (conversations s1) = [1, 2]"
    by auto
  from e i b have c: "\<exists>s1 r1 r2. createDirectConversation demo (Some 3) 5 200 = (s1, Inr r1)
          \<and> createDirectConversation s1 (Some 5) 3 210 = (s1, Inr r2)
          \<and> fc_id r1 = 2 \<and> fc_id r2 = 2
          \<and> map c_id (conversations s1) = [1, 2]"
    by (elim exE conjE) (intro exI conjI)
  from wf_demo demo_users a c show ?thesis by simp
qed

end
